theory Spec2Isabelle
  imports Complex_Main "HOL-Library.AList"
begin

section \<open>JSON values and Python results\<close>

text \<open>
  The values that \<^verbatim>\<open>json.loads\<close> produces. A JSON object is a Python dictionary, kept
  here as an association list in insertion order (looked up with \<open>map_of\<close>, assigned with
  \<open>AList.update\<close>). A Python float is modelled by the rational number it denotes; the only
  float arithmetic of the source is the addition of the step \<^verbatim>\<open>0.01\<close> in
  \<^verbatim>\<open>_set_limits\<close>, whose rounding error is not modelled.
\<close>

datatype json =
    JNull
  | JBool bool
  | JInt int
  | JNum rat
  | JStr string
  | JArr "json list"
  | JObj "(string \<times> json) list"

type_synonym pydict = "(string \<times> json) list"

datatype error =
    KeyError
  | ValueError
  | TypeError
  | IndexError
  | AttributeError
  | AssertionError
  | OverflowError
  | UnsupportedSchemaError
  | ResolutionError

text \<open>
  The outcome of a call: it returns, it raises, or the bound on the recursion depth was
  reached before it did either (the source can recurse without end, see \<open>create_widget\<close>).
\<close>

datatype 'a result = OutOfFuel | Raise error | Ok 'a

fun bind :: "'a result \<Rightarrow> ('a \<Rightarrow> 'b result) \<Rightarrow> 'b result" where
  "bind OutOfFuel f = OutOfFuel"
| "bind (Raise e) f = Raise e"
| "bind (Ok x) f = f x"

text \<open>\<^verbatim>\<open>d.get(k, default)\<close>\<close>

definition dict_get :: "pydict \<Rightarrow> string \<Rightarrow> json \<Rightarrow> json" where
  "dict_get d k dflt = (case map_of d k of None \<Rightarrow> dflt | Some v \<Rightarrow> v)"

text \<open>Python's truth value of a JSON value, as \<^verbatim>\<open>if x:\<close> tests it.\<close>

fun truthy :: "json \<Rightarrow> bool" where
  "truthy JNull = False"
| "truthy (JBool b) = b"
| "truthy (JInt n) = (n \<noteq> 0)"
| "truthy (JNum r) = (r \<noteq> 0)"
| "truthy (JStr s) = (s \<noteq> [])"
| "truthy (JArr xs) = (xs \<noteq> [])"
| "truthy (JObj kvs) = (kvs \<noteq> [])"

text \<open>
  Python's numbers: \<^verbatim>\<open>bool\<close> is a subclass of \<^verbatim>\<open>int\<close>, and an \<^verbatim>\<open>int\<close> and a
  \<^verbatim>\<open>float\<close> compare by value.
\<close>

fun int_of_json :: "json \<Rightarrow> int option" where
  "int_of_json (JBool b) = Some (if b then 1 else 0)"
| "int_of_json (JInt n) = Some n"
| "int_of_json _ = None"

fun num_of_json :: "json \<Rightarrow> rat option" where
  "num_of_json (JBool b) = Some (if b then 1 else 0)"
| "num_of_json (JInt n) = Some (of_int n)"
| "num_of_json (JNum r) = Some r"
| "num_of_json _ = None"

text \<open>
  \<^verbatim>\<open>a + b\<close> and \<^verbatim>\<open>a - b\<close> where \<open>b\<close> is a number (the step): two integers give an
  integer, a float on either side gives a float, anything else raises TypeError.
\<close>

definition py_arith :: "(int \<Rightarrow> int \<Rightarrow> int) \<Rightarrow> (rat \<Rightarrow> rat \<Rightarrow> rat) \<Rightarrow> json \<Rightarrow> json \<Rightarrow> json result" where
  "py_arith fi fr a b =
     (case (int_of_json a, int_of_json b) of
        (Some x, Some y) \<Rightarrow> Ok (JInt (fi x y))
      | _ \<Rightarrow> (case (num_of_json a, num_of_json b) of
                (Some x, Some y) \<Rightarrow> Ok (JNum (fr x y))
              | _ \<Rightarrow> Raise TypeError))"

definition py_add :: "json \<Rightarrow> json \<Rightarrow> json result" where
  "py_add = py_arith (+) (+)"

definition py_sub :: "json \<Rightarrow> json \<Rightarrow> json result" where
  "py_sub = py_arith (-) (-)"

text \<open>
  Python's \<^verbatim>\<open>==\<close> on JSON values: numbers by value across bool, int and float; strings
  and lists structurally; dictionaries by key set and values, whatever the order (the
  equality of \<^verbatim>\<open>dict\<close>, which is also what the dictionary of a dump is compared by).
\<close>

fun py_eq :: "json \<Rightarrow> json \<Rightarrow> bool"
  and py_eq_list :: "json list \<Rightarrow> json list \<Rightarrow> bool"
  and py_eq_items :: "(string \<times> json) list \<Rightarrow> (string \<times> json) list \<Rightarrow> bool" where
  "py_eq JNull b = (b = JNull)"
| "py_eq (JBool x) b = (num_of_json b = Some (if x then 1 else 0))"
| "py_eq (JInt x) b = (num_of_json b = Some (of_int x))"
| "py_eq (JNum x) b = (num_of_json b = Some x)"
| "py_eq (JStr x) b = (b = JStr x)"
| "py_eq (JArr xs) b = (case b of JArr ys \<Rightarrow> py_eq_list xs ys | _ \<Rightarrow> False)"
| "py_eq (JObj kvs) b =
     (case b of JObj kws \<Rightarrow> length kvs = length kws \<and> py_eq_items kvs kws | _ \<Rightarrow> False)"
| "py_eq_list [] ys = (ys = [])"
| "py_eq_list (x # xs) ys = (case ys of [] \<Rightarrow> False | y # ys' \<Rightarrow> py_eq x y \<and> py_eq_list xs ys')"
| "py_eq_items [] kws = True"
| "py_eq_items ((k, v) # kvs) kws =
     ((case map_of kws k of None \<Rightarrow> False | Some w \<Rightarrow> py_eq v w) \<and> py_eq_items kvs kws)"

text \<open>\<^verbatim>\<open>xs.index(obj)\<close>: the first position whose entry equals \<open>obj\<close>, ValueError if none.\<close>

fun list_index :: "json list \<Rightarrow> json \<Rightarrow> nat option" where
  "list_index [] obj = None"
| "list_index (e # es) obj =
     (if py_eq e obj then Some 0 else map_option Suc (list_index es obj))"

text \<open>\<^verbatim>\<open>xs[i]\<close>: a negative index counts from the end, IndexError outside the list.\<close>

definition py_getitem :: "'a list \<Rightarrow> int \<Rightarrow> 'a result" where
  "py_getitem xs i =
     (if 0 \<le> i \<and> i < int (length xs) then Ok (xs ! nat i)
      else if i < 0 \<and> - int (length xs) \<le> i then Ok (xs ! nat (int (length xs) + i))
      else Raise IndexError)"

text \<open>
  What \<^verbatim>\<open>enumerate(data)\<close> iterates over: the elements of a list, the characters of a
  string, the keys of a dictionary; anything else is not iterable.
\<close>

fun py_iter :: "json \<Rightarrow> json list result" where
  "py_iter (JArr xs) = Ok xs"
| "py_iter (JStr s) = Ok (map (\<lambda>c. JStr [c]) s)"
| "py_iter (JObj kvs) = Ok (map (\<lambda>kv. JStr (fst kv)) kvs)"
| "py_iter _ = Raise TypeError"

text \<open>\<^verbatim>\<open>"{:d}".format(n)\<close> for a count \<open>n\<close>.\<close>

fun show_nat :: "nat \<Rightarrow> string" where
  "show_nat n =
     (if n < 10 then [''0123456789'' ! n]
      else show_nat (n div 10) @ [''0123456789'' ! (n mod 10)])"

declare show_nat.simps [simp del]


section \<open>The Qt input controls\<close>

text \<open>
  The widgets hold their values in Qt controls. The controls are part of Qt, not of the
  repository; they are modelled by the behaviour the Qt documentation gives them, and by
  the argument conversion of the PyQt5 binding (a C \<^verbatim>\<open>int\<close> parameter takes a Python int
  that fits 32 bits, a \<^verbatim>\<open>double\<close> takes an int or a float, a \<^verbatim>\<open>bool\<close> takes a bool or an
  int, a \<^verbatim>\<open>QString\<close> takes a str; anything else raises TypeError). An int outside 32 bits
  is refused with OverflowError, as the binding does when it checks for overflow.
\<close>

definition qt_int :: "json \<Rightarrow> int result" where
  "qt_int a =
     (case int_of_json a of
        None \<Rightarrow> Raise TypeError
      | Some i \<Rightarrow> if - (2 ^ 31) \<le> i \<and> i < 2 ^ 31 then Ok i else Raise OverflowError)"

definition qt_double :: "json \<Rightarrow> rat result" where
  "qt_double a = (case num_of_json a of None \<Rightarrow> Raise TypeError | Some r \<Rightarrow> Ok r)"

definition qt_bool :: "json \<Rightarrow> bool result" where
  "qt_bool a = (case int_of_json a of None \<Rightarrow> Raise TypeError | Some i \<Rightarrow> Ok (i \<noteq> 0))"

definition qt_str :: "json \<Rightarrow> string result" where
  "qt_str a = (case a of JStr s \<Rightarrow> Ok s | _ \<Rightarrow> Raise TypeError)"

text \<open>
  \<^verbatim>\<open>QSpinBox\<close> and \<^verbatim>\<open>QDoubleSpinBox\<close>: a value kept inside a range. Setting one end of
  the range moves the other end when the range would become empty, and forces the value
  back into the range.
\<close>

record 'a spinbox =
  sb_minimum :: 'a
  sb_maximum :: 'a
  sb_value :: 'a

definition sb_bound :: "('a::linorder) spinbox \<Rightarrow> 'a \<Rightarrow> 'a" where
  "sb_bound sb v =
     (if v < sb_minimum sb then sb_minimum sb
      else if sb_maximum sb < v then sb_maximum sb else v)"

definition setRange :: "('a::linorder) \<Rightarrow> 'a \<Rightarrow> 'a spinbox \<Rightarrow> 'a spinbox" where
  "setRange mn mx sb =
     (let sb' = sb\<lparr>sb_minimum := mn, sb_maximum := (if mn < mx then mx else mn)\<rparr>
      in sb'\<lparr>sb_value := sb_bound sb' (sb_value sb)\<rparr>)"

definition setMinimum :: "('a::linorder) \<Rightarrow> 'a spinbox \<Rightarrow> 'a spinbox" where
  "setMinimum m sb = setRange m (if m < sb_maximum sb then sb_maximum sb else m) sb"

definition setMaximum :: "('a::linorder) \<Rightarrow> 'a spinbox \<Rightarrow> 'a spinbox" where
  "setMaximum m sb = setRange (if sb_minimum sb < m then sb_minimum sb else m) m sb"

definition setValue :: "('a::linorder) \<Rightarrow> 'a spinbox \<Rightarrow> 'a spinbox" where
  "setValue v sb = sb\<lparr>sb_value := sb_bound sb v\<rparr>"

text \<open>A new \<^verbatim>\<open>QSpinBox\<close> has the range 0 to 99 and the value 0.\<close>

definition QSpinBox :: "int spinbox" where
  "QSpinBox = \<lparr>sb_minimum = 0, sb_maximum = 99, sb_value = 0\<rparr>"

definition QSpinBox_setMinimum :: "json \<Rightarrow> int spinbox \<Rightarrow> int spinbox result" where
  "QSpinBox_setMinimum a sb = bind (qt_int a) (\<lambda>i. Ok (setMinimum i sb))"

definition QSpinBox_setMaximum :: "json \<Rightarrow> int spinbox \<Rightarrow> int spinbox result" where
  "QSpinBox_setMaximum a sb = bind (qt_int a) (\<lambda>i. Ok (setMaximum i sb))"

definition QSpinBox_setValue :: "json \<Rightarrow> int spinbox \<Rightarrow> int spinbox result" where
  "QSpinBox_setValue a sb = bind (qt_int a) (\<lambda>i. Ok (setValue i sb))"

text \<open>
  A new \<^verbatim>\<open>QDoubleSpinBox\<close> has the range 0 to 99.99, the value 0 and two decimals: every
  number it is given is rounded to two decimals first (\<open>round2\<close>, to the nearest
  hundredth, an exact tie away from zero).
\<close>

definition round2 :: "rat \<Rightarrow> rat" where
  "round2 r =
     (if r < 0 then - (of_int \<lfloor>- r * 100 + 1 / 2\<rfloor> / 100)
      else of_int \<lfloor>r * 100 + 1 / 2\<rfloor> / 100)"

definition QDoubleSpinBox :: "rat spinbox" where
  "QDoubleSpinBox = \<lparr>sb_minimum = 0, sb_maximum = 9999 / 100, sb_value = 0\<rparr>"

definition QDoubleSpinBox_setMinimum :: "json \<Rightarrow> rat spinbox \<Rightarrow> rat spinbox result" where
  "QDoubleSpinBox_setMinimum a sb = bind (qt_double a) (\<lambda>r. Ok (setMinimum (round2 r) sb))"

definition QDoubleSpinBox_setMaximum :: "json \<Rightarrow> rat spinbox \<Rightarrow> rat spinbox result" where
  "QDoubleSpinBox_setMaximum a sb = bind (qt_double a) (\<lambda>r. Ok (setMaximum (round2 r) sb))"

definition QDoubleSpinBox_setValue :: "json \<Rightarrow> rat spinbox \<Rightarrow> rat spinbox result" where
  "QDoubleSpinBox_setValue a sb = bind (qt_double a) (\<lambda>r. Ok (setValue (round2 r) sb))"

text \<open>
  \<^verbatim>\<open>QLineEdit\<close>: a text cut at \<open>maxLength\<close> characters (32767 in a new control; a negative
  limit cuts nothing). A string is a list of characters here, each counted once.
\<close>

record lineedit =
  le_maxLength :: int
  le_text :: string

definition le_truncate :: "int \<Rightarrow> string \<Rightarrow> string" where
  "le_truncate m s = (if m < 0 then s else take (nat m) s)"

definition QLineEdit :: lineedit where
  "QLineEdit = \<lparr>le_maxLength = 32767, le_text = []\<rparr>"

definition setMaxLength :: "int \<Rightarrow> lineedit \<Rightarrow> lineedit" where
  "setMaxLength m le = le\<lparr>le_maxLength := m, le_text := le_truncate m (le_text le)\<rparr>"

definition setText :: "string \<Rightarrow> lineedit \<Rightarrow> lineedit" where
  "setText s le = le\<lparr>le_text := le_truncate (le_maxLength le) s\<rparr>"

section \<open>The widget tree\<close>

text \<open>
  The attributes that \<^verbatim>\<open>JSONBaseWidget.__init__\<close> sets. The \<^verbatim>\<open>parent\<close> attribute is a
  reference back into the tree and is read once, for \<^verbatim>\<open>parent.definitions\<close>; the model
  passes a constructor the parent as \<open>None\<close> (no parent) or \<open>Some d\<close> (a parent whose
  \<^verbatim>\<open>definitions\<close> is \<open>d\<close>) and does not store it. The context class lives in
  \<^verbatim>\<open>tools.py\<close>, which is not among the sources: its type is the parameter \<open>'c\<close>.
\<close>

record 'c base =
  base_name :: string
  base_schema :: pydict
  base_ctx :: 'c
  base_definitions :: json

type_synonym parent_ref = "json option"

text \<open>
  One constructor per widget class, with the state the class adds: the children of an
  object (the dictionary \<^verbatim>\<open>properties\<close>), the \<^verbatim>\<open>enum_values\<close> and the current index of
  the combo box, the Qt control of a primitive, the \<^verbatim>\<open>items_schema\<close>, the
  \<^verbatim>\<open>additional_item_schema\<close> (JSON null for Python's None) and the children of an array.
  \<^verbatim>\<open>items_list\<close> and \<^verbatim>\<open>widget_stack\<close> of an array get and lose their entries together, so
  the one list of children stands for both.
\<close>

datatype 'c widget =
    UnsupportedSchemaWidget "'c base"
  | JSONObjectWidget "'c base" "(string \<times> 'c widget) list"
  | JSONEnumWidget "'c base" "json list" int
  | JSONStringWidget "'c base" lineedit
  | JSONIntegerWidget "'c base" "int spinbox"
  | JSONNumberWidget "'c base" "rat spinbox"
  | JSONBooleanWidget "'c base" bool
  | JSONArrayWidget "'c base" json json "'c widget list"

fun widget_base :: "'c widget \<Rightarrow> 'c base" where
  "widget_base (UnsupportedSchemaWidget b) = b"
| "widget_base (JSONObjectWidget b ps) = b"
| "widget_base (JSONEnumWidget b es i) = b"
| "widget_base (JSONStringWidget b le) = b"
| "widget_base (JSONIntegerWidget b sb) = b"
| "widget_base (JSONNumberWidget b sb) = b"
| "widget_base (JSONBooleanWidget b c) = b"
| "widget_base (JSONArrayWidget b its ad cs) = b"

datatype widget_class =
    UnsupportedClass
  | ObjectClass
  | EnumClass
  | StringClass
  | IntegerClass
  | NumberClass
  | BooleanClass
  | ArrayClass

definition schema_type_to_widget_class :: "(string \<times> widget_class) list" where
  "schema_type_to_widget_class =
     [(''object'', ObjectClass),
      (''string'', StringClass),
      (''integer'', IntegerClass),
      (''array'', ArrayClass),
      (''number'', NumberClass),
      (''boolean'', BooleanClass)]"

subsection \<open>Constructors\<close>

text \<open>
  The constructors are modelled up to presentation: the labels, titles, tool tips, style
  sheets, layouts and buttons they create hold no state that \<^verbatim>\<open>load_json_object\<close> or
  \<^verbatim>\<open>dump_json_object\<close> reads, and are left out (with them the TypeError of Qt on a
  \<^verbatim>\<open>title\<close> or \<^verbatim>\<open>description\<close> that is not a string).
\<close>

definition JSONBaseWidget_init :: "string \<Rightarrow> pydict \<Rightarrow> 'c \<Rightarrow> parent_ref \<Rightarrow> 'c base" where
  "JSONBaseWidget_init name schema ctx parent =
     \<lparr>base_name = name, base_schema = schema, base_ctx = ctx,
      base_definitions =
        (case map_of schema ''definitions'' of
           Some d \<Rightarrow> d
         | None \<Rightarrow> (case parent of Some pd \<Rightarrow> pd | None \<Rightarrow> JObj []))\<rparr>"

definition UnsupportedSchemaWidget_init ::
  "string \<Rightarrow> pydict \<Rightarrow> 'c \<Rightarrow> parent_ref \<Rightarrow> 'c widget result" where
  "UnsupportedSchemaWidget_init name schema ctx parent =
     Ok (UnsupportedSchemaWidget (JSONBaseWidget_init name schema ctx parent))"

text \<open>The loop of \<^verbatim>\<open>JSONObjectWidget.__init__\<close> over \<^verbatim>\<open>schema['properties'].items()\<close>.\<close>

fun create_properties ::
  "(string \<Rightarrow> json \<Rightarrow> 'c widget result) \<Rightarrow> (string \<times> json) list \<Rightarrow>
   (string \<times> 'c widget) list \<Rightarrow> (string \<times> 'c widget) list result" where
  "create_properties mk [] properties = Ok properties"
| "create_properties mk ((k, v) # kvs) properties =
     bind (mk k v) (\<lambda>widget. create_properties mk kvs (AList.update k widget properties))"

definition JSONObjectWidget_init ::
  "(string \<Rightarrow> json \<Rightarrow> 'c \<Rightarrow> parent_ref \<Rightarrow> 'c widget result) \<Rightarrow>
   string \<Rightarrow> pydict \<Rightarrow> 'c \<Rightarrow> parent_ref \<Rightarrow> 'c widget result" where
  "JSONObjectWidget_init mk name schema ctx parent =
     (let b = JSONBaseWidget_init name schema ctx parent in
      case map_of schema ''properties'' of
        None \<Rightarrow> Ok (JSONObjectWidget b [])
      | Some (JObj kvs) \<Rightarrow>
          bind (create_properties (\<lambda>k v. mk k v ctx (Some (base_definitions b))) kvs [])
            (\<lambda>properties. Ok (JSONObjectWidget b properties))
      | Some _ \<Rightarrow> Raise AttributeError)"

definition JSONPrimitiveBaseWidget_init ::
  "string \<Rightarrow> pydict \<Rightarrow> 'c \<Rightarrow> parent_ref \<Rightarrow> 'c base result" where
  "JSONPrimitiveBaseWidget_init name schema ctx parent =
     Ok (JSONBaseWidget_init name schema ctx parent)"

text \<open>
  A combo box that has just been filled shows its first item; an empty one has the
  current index -1. An \<^verbatim>\<open>enum\<close> that is a number, a boolean or null cannot be iterated;
  one that is a string or a dictionary is outside the model and is refused alike.
\<close>

definition JSONEnumWidget_init ::
  "string \<Rightarrow> pydict \<Rightarrow> 'c \<Rightarrow> parent_ref \<Rightarrow> 'c widget result" where
  "JSONEnumWidget_init name schema ctx parent =
     bind (JSONPrimitiveBaseWidget_init name schema ctx parent) (\<lambda>b.
       case map_of schema ''enum'' of
         None \<Rightarrow> Raise KeyError
       | Some (JArr enum_values) \<Rightarrow>
           Ok (JSONEnumWidget b enum_values (if enum_values = [] then - 1 else 0))
       | Some _ \<Rightarrow> Raise TypeError)"

text \<open>
  The validators of a string widget come from \<^verbatim>\<open>validators.py\<close>, which is not among the
  sources; they restyle the control when its text changes and are left out.
\<close>

definition JSONStringWidget_init ::
  "string \<Rightarrow> pydict \<Rightarrow> 'c \<Rightarrow> parent_ref \<Rightarrow> 'c widget result" where
  "JSONStringWidget_init name schema ctx parent =
     bind (JSONPrimitiveBaseWidget_init name schema ctx parent) (\<lambda>b.
       let max_length = dict_get schema ''maxLength'' JNull in
       if max_length \<noteq> JNull
       then bind (qt_int max_length) (\<lambda>m. Ok (JSONStringWidget b (setMaxLength m QLineEdit)))
       else Ok (JSONStringWidget b QLineEdit))"

text \<open>
  \<^verbatim>\<open>SpinBoxWidgetBase._set_limits\<close>, with the class attribute \<^verbatim>\<open>step\<close> and the two
  setters of the class's control as parameters.
\<close>

definition u_set_limits ::
  "json \<Rightarrow> (json \<Rightarrow> 'w \<Rightarrow> 'w result) \<Rightarrow> (json \<Rightarrow> 'w \<Rightarrow> 'w result) \<Rightarrow> pydict \<Rightarrow> 'w \<Rightarrow> 'w result" where
  "u_set_limits step set_minimum set_maximum schema primitive_widget =
     bind (case map_of schema ''minimum'' of
             None \<Rightarrow> Ok primitive_widget
           | Some minimum \<Rightarrow>
               bind (if truthy (dict_get schema ''exclusiveMinimum'' (JBool False))
                     then py_add minimum step else Ok minimum)
                 (\<lambda>minimum. set_minimum minimum primitive_widget))
       (\<lambda>primitive_widget.
          case map_of schema ''maximum'' of
            None \<Rightarrow> Ok primitive_widget
          | Some maximum \<Rightarrow>
              bind (if truthy (dict_get schema ''exclusiveMaximum'' (JBool False))
                    then py_sub maximum step else Ok maximum)
                (\<lambda>maximum. set_maximum maximum primitive_widget))"

definition JSONIntegerWidget_step :: json where
  "JSONIntegerWidget_step = JInt 1"

definition JSONNumberWidget_step :: json where
  "JSONNumberWidget_step = JNum (1 / 100)"

definition JSONIntegerWidget_init ::
  "string \<Rightarrow> pydict \<Rightarrow> 'c \<Rightarrow> parent_ref \<Rightarrow> 'c widget result" where
  "JSONIntegerWidget_init name schema ctx parent =
     bind (JSONPrimitiveBaseWidget_init name schema ctx parent) (\<lambda>b.
     bind (u_set_limits JSONIntegerWidget_step QSpinBox_setMinimum QSpinBox_setMaximum
             schema QSpinBox)
       (\<lambda>sb. Ok (JSONIntegerWidget b sb)))"

definition JSONNumberWidget_init ::
  "string \<Rightarrow> pydict \<Rightarrow> 'c \<Rightarrow> parent_ref \<Rightarrow> 'c widget result" where
  "JSONNumberWidget_init name schema ctx parent =
     bind (JSONPrimitiveBaseWidget_init name schema ctx parent) (\<lambda>b.
     bind (u_set_limits JSONNumberWidget_step QDoubleSpinBox_setMinimum
             QDoubleSpinBox_setMaximum schema QDoubleSpinBox)
       (\<lambda>sb. Ok (JSONNumberWidget b sb)))"

definition JSONBooleanWidget_init ::
  "string \<Rightarrow> pydict \<Rightarrow> 'c \<Rightarrow> parent_ref \<Rightarrow> 'c widget result" where
  "JSONBooleanWidget_init name schema ctx parent =
     bind (JSONPrimitiveBaseWidget_init name schema ctx parent) (\<lambda>b.
       Ok (JSONBooleanWidget b False))"

definition JSONArrayWidget_init ::
  "string \<Rightarrow> pydict \<Rightarrow> 'c \<Rightarrow> parent_ref \<Rightarrow> 'c widget result" where
  "JSONArrayWidget_init name schema ctx parent =
     (let b = JSONBaseWidget_init name schema ctx parent in
      case map_of schema ''items'' of
        None \<Rightarrow> Raise UnsupportedSchemaError
      | Some items_schema \<Rightarrow>
          Ok (JSONArrayWidget b items_schema (dict_get schema ''additionalItems'' JNull) []))"

text \<open>\<^verbatim>\<open>widget_class(name, schema, ctx, parent)\<close>\<close>

definition construct ::
  "(string \<Rightarrow> json \<Rightarrow> 'c \<Rightarrow> parent_ref \<Rightarrow> 'c widget result) \<Rightarrow> widget_class \<Rightarrow>
   string \<Rightarrow> pydict \<Rightarrow> 'c \<Rightarrow> parent_ref \<Rightarrow> 'c widget result" where
  "construct mk widget_class name schema ctx parent =
     (case widget_class of
        UnsupportedClass \<Rightarrow> UnsupportedSchemaWidget_init name schema ctx parent
      | ObjectClass \<Rightarrow> JSONObjectWidget_init mk name schema ctx parent
      | EnumClass \<Rightarrow> JSONEnumWidget_init name schema ctx parent
      | StringClass \<Rightarrow> JSONStringWidget_init name schema ctx parent
      | IntegerClass \<Rightarrow> JSONIntegerWidget_init name schema ctx parent
      | NumberClass \<Rightarrow> JSONNumberWidget_init name schema ctx parent
      | BooleanClass \<Rightarrow> JSONBooleanWidget_init name schema ctx parent
      | ArrayClass \<Rightarrow> JSONArrayWidget_init name schema ctx parent)"


subsection \<open>The factory\<close>

text \<open>
  \<^verbatim>\<open>Context.follow_uri\<close> and \<^verbatim>\<open>Context.dereference\<close> are methods of \<^verbatim>\<open>tools.py\<close>, which
  is not among the sources: the two are parameters of the model, free to return or to raise.
\<close>

record 'c context_ops =
  follow_uri :: "'c \<Rightarrow> json \<Rightarrow> 'c result"
  dereference :: "'c \<Rightarrow> json \<Rightarrow> json result"

text \<open>
  \<^verbatim>\<open>while "$ref" in schema: schema = ctx.dereference(schema['$ref'])\<close>. The source puts no
  bound on this loop; the model counts its steps down from a bound. A fragment that is not
  a dictionary is not a schema: Python fails on it at one of the dictionary operations.
\<close>

fun follow_refs :: "nat \<Rightarrow> 'c context_ops \<Rightarrow> 'c \<Rightarrow> json \<Rightarrow> pydict result" where
  "follow_refs 0 R ctx schema = OutOfFuel"
| "follow_refs (Suc n) R ctx schema =
     (case schema of
        JObj d \<Rightarrow>
          (case map_of d ''$ref'' of
             None \<Rightarrow> Ok d
           | Some r \<Rightarrow> bind (dereference R ctx r) (follow_refs n R ctx))
      | _ \<Rightarrow> Raise TypeError)"

text \<open>
  The choice of the class in \<^verbatim>\<open>_create_widget\<close>. A dictionary lookup hashes its key, and
  Python's lists and dictionaries are not hashable: \<^verbatim>\<open>.get\<close> raises TypeError on them.
\<close>

definition select_widget_class :: "pydict \<Rightarrow> widget_class result" where
  "select_widget_class schema =
     (if map_of schema ''enum'' \<noteq> None then Ok EnumClass
      else (case map_of schema ''type'' of
              Some schema_type \<Rightarrow>
                (case schema_type of
                   JStr s \<Rightarrow>
                     Ok (case map_of schema_type_to_widget_class s of
                           Some c \<Rightarrow> c | None \<Rightarrow> UnsupportedClass)
                 | JArr _ \<Rightarrow> Raise TypeError
                 | JObj _ \<Rightarrow> Raise TypeError
                 | _ \<Rightarrow> Ok UnsupportedClass)
            | None \<Rightarrow> Ok UnsupportedClass))"

text \<open>
  \<^verbatim>\<open>try: widget = widget_class(...) except UnsupportedSchemaError: widget =
  UnsupportedSchemaWidget(...)\<close>
\<close>

definition construct_or_unsupported ::
  "(string \<Rightarrow> json \<Rightarrow> 'c \<Rightarrow> parent_ref \<Rightarrow> 'c widget result) \<Rightarrow> widget_class \<Rightarrow>
   string \<Rightarrow> pydict \<Rightarrow> 'c \<Rightarrow> parent_ref \<Rightarrow> 'c widget result" where
  "construct_or_unsupported mk widget_class name schema ctx parent =
     (case construct mk widget_class name schema ctx parent of
        Raise UnsupportedSchemaError \<Rightarrow> UnsupportedSchemaWidget_init name schema ctx parent
      | r \<Rightarrow> r)"

subsection \<open>Arrays\<close>

definition u_get_item_schema :: "json \<Rightarrow> json \<Rightarrow> nat \<Rightarrow> json result" where
  "u_get_item_schema items_schema additional_item_schema index =
     (case items_schema of
        JArr xs \<Rightarrow>
          if index < length xs then Ok (xs ! index)
          else if additional_item_schema \<noteq> JNull then Ok additional_item_schema
          else Raise AssertionError
      | JObj d \<Rightarrow> Ok items_schema
      | _ \<Rightarrow> Raise AssertionError)"

text \<open>
  \<^verbatim>\<open>add_item(data=None)\<close>, with the factory \<open>mk\<close> and the children's \<^verbatim>\<open>load_json_object\<close>
  \<open>ld\<close> as parameters.
\<close>

definition add_item ::
  "('c widget \<Rightarrow> json \<Rightarrow> 'c widget result) \<Rightarrow>
   (string \<Rightarrow> json \<Rightarrow> 'c \<Rightarrow> parent_ref \<Rightarrow> 'c widget result) \<Rightarrow>
   'c widget \<Rightarrow> json \<Rightarrow> 'c widget result" where
  "add_item ld mk self data =
     (case self of
        JSONArrayWidget b items_schema additional children \<Rightarrow>
          (let index = length children in
           bind (u_get_item_schema items_schema additional index) (\<lambda>schema.
           bind (mk (''Item #'' @ show_nat index) schema (base_ctx b) (Some (base_definitions b)))
             (\<lambda>obj.
                if data \<noteq> JNull
                then bind (ld obj data) (\<lambda>obj'.
                       Ok (JSONArrayWidget b items_schema additional (children @ [obj'])))
                else Ok (JSONArrayWidget b items_schema additional (children @ [obj])))))
      | _ \<Rightarrow> Raise AttributeError)"

definition remove_item :: "'c widget \<Rightarrow> 'c widget" where
  "remove_item self =
     (case self of
        JSONArrayWidget b items_schema additional children \<Rightarrow>
          JSONArrayWidget b items_schema additional (butlast children)
      | _ \<Rightarrow> self)"

text \<open>The loop of \<^verbatim>\<open>JSONArrayWidget.load_json_object\<close>, from position \<open>i\<close> on.\<close>

fun load_array ::
  "('c widget \<Rightarrow> json \<Rightarrow> 'c widget result) \<Rightarrow>
   (string \<Rightarrow> json \<Rightarrow> 'c \<Rightarrow> parent_ref \<Rightarrow> 'c widget result) \<Rightarrow>
   'c widget \<Rightarrow> nat \<Rightarrow> json list \<Rightarrow> 'c widget result" where
  "load_array ld mk self i [] = Ok self"
| "load_array ld mk self i (datum # data) =
     (case self of
        JSONArrayWidget b items_schema additional children \<Rightarrow>
          if i < length children
          then bind (ld (children ! i) datum) (\<lambda>child.
                 load_array ld mk
                   (JSONArrayWidget b items_schema additional (children[i := child]))
                   (Suc i) data)
          else bind (add_item ld mk self datum) (\<lambda>self'. load_array ld mk self' (Suc i) data)
      | _ \<Rightarrow> Raise AttributeError)"

subsection \<open>Objects\<close>

text \<open>
  The loop of \<^verbatim>\<open>JSONObjectWidget.load_json_object\<close>:
  \<^verbatim>\<open>for k, v in data.items(): self.properties[k].load_json_object(v)\<close>
\<close>

fun load_properties ::
  "('c widget \<Rightarrow> json \<Rightarrow> 'c widget result) \<Rightarrow> (string \<times> 'c widget) list \<Rightarrow>
   (string \<times> json) list \<Rightarrow> (string \<times> 'c widget) list result" where
  "load_properties ld properties [] = Ok properties"
| "load_properties ld properties ((k, v) # data) =
     (case map_of properties k of
        None \<Rightarrow> Raise KeyError
      | Some child \<Rightarrow>
          bind (ld child v) (\<lambda>child'.
            load_properties ld (AList.update k child' properties) data))"

subsection \<open>\<^verbatim>\<open>dump_json_object\<close>\<close>

fun dump_json_object :: "'c widget \<Rightarrow> json result"
  and dump_list :: "'c widget list \<Rightarrow> json list result"
  and dump_properties :: "(string \<times> 'c widget) list \<Rightarrow> (string \<times> json) list result" where
  "dump_json_object (UnsupportedSchemaWidget b) = Ok (JStr ''(unsupported)'')"
| "dump_json_object (JSONObjectWidget b properties) =
     bind (dump_properties properties) (\<lambda>kvs. Ok (JObj kvs))"
| "dump_json_object (JSONEnumWidget b enum_values index) = py_getitem enum_values index"
| "dump_json_object (JSONStringWidget b le) = Ok (JStr (le_text le))"
| "dump_json_object (JSONIntegerWidget b sb) = Ok (JInt (sb_value sb))"
| "dump_json_object (JSONNumberWidget b sb) = Ok (JNum (sb_value sb))"
| "dump_json_object (JSONBooleanWidget b checked) = Ok (JBool checked)"
| "dump_json_object (JSONArrayWidget b items_schema additional children) =
     bind (dump_list children) (\<lambda>xs. Ok (JArr xs))"
| "dump_list [] = Ok []"
| "dump_list (w # ws) =
     bind (dump_json_object w) (\<lambda>x. bind (dump_list ws) (\<lambda>xs. Ok (x # xs)))"
| "dump_properties [] = Ok []"
| "dump_properties ((k, w) # ps) =
     bind (dump_json_object w) (\<lambda>x. bind (dump_properties ps) (\<lambda>kvs. Ok ((k, x) # kvs)))"

text \<open>
  \<^verbatim>\<open>JSONBaseWidget.initialise\<close>, with the widget's own \<^verbatim>\<open>load_json_object\<close> as the
  parameter \<open>ld\<close>.
\<close>

definition initialise ::
  "('c widget \<Rightarrow> json \<Rightarrow> 'c widget result) \<Rightarrow> 'c widget \<Rightarrow> 'c widget result" where
  "initialise ld self =
     (case map_of (base_schema (widget_base self)) ''default'' of
        None \<Rightarrow> Ok self
      | Some dflt \<Rightarrow> ld self dflt)"

subsection \<open>\<^verbatim>\<open>_create_widget\<close> and \<^verbatim>\<open>load_json_object\<close>\<close>

text \<open>
  The factory builds the children of an object and loads the default of every node it
  builds; loading an array builds the children that are missing. Neither is bounded in the
  source (a schema that refers to itself through \<^verbatim>\<open>$ref\<close> inside \<^verbatim>\<open>properties\<close> never
  finishes), so both take a bound \<open>n\<close> on the depth of the calls and return \<open>OutOfFuel\<close>
  when it is reached.
\<close>

fun u_create_widget ::
    "nat \<Rightarrow> 'c context_ops \<Rightarrow> string \<Rightarrow> json \<Rightarrow> 'c \<Rightarrow> parent_ref \<Rightarrow> 'c widget result"
  and load_json_object ::
    "nat \<Rightarrow> 'c context_ops \<Rightarrow> 'c widget \<Rightarrow> json \<Rightarrow> 'c widget result" where
  "u_create_widget 0 R name schema ctx parent = OutOfFuel"
| "u_create_widget (Suc n) R name schema ctx parent =
     (case schema of
        JObj d \<Rightarrow>
          bind (case map_of d ''id'' of None \<Rightarrow> Ok ctx | Some i \<Rightarrow> follow_uri R ctx i) (\<lambda>ctx.
          bind (follow_refs n R ctx schema) (\<lambda>schema.
          bind (select_widget_class schema) (\<lambda>widget_class.
          bind (construct_or_unsupported (u_create_widget n R) widget_class name schema ctx parent)
            (initialise (load_json_object n R)))))
      | _ \<Rightarrow> Raise TypeError)"
| "load_json_object 0 R self data = OutOfFuel"
| "load_json_object (Suc n) R self data =
     (case self of
        UnsupportedSchemaWidget b \<Rightarrow> Ok self
      | JSONObjectWidget b properties \<Rightarrow>
          (case data of
             JObj kvs \<Rightarrow>
               bind (load_properties (load_json_object n R) properties kvs)
                 (\<lambda>properties'. Ok (JSONObjectWidget b properties'))
           | _ \<Rightarrow> Raise AttributeError)
      | JSONEnumWidget b enum_values index \<Rightarrow>
          (case list_index enum_values data of
             None \<Rightarrow> Raise ValueError
           | Some i \<Rightarrow> Ok (JSONEnumWidget b enum_values (int i)))
      | JSONStringWidget b le \<Rightarrow>
          bind (qt_str data) (\<lambda>s. Ok (JSONStringWidget b (setText s le)))
      | JSONIntegerWidget b sb \<Rightarrow>
          bind (QSpinBox_setValue data sb) (\<lambda>sb'. Ok (JSONIntegerWidget b sb'))
      | JSONNumberWidget b sb \<Rightarrow>
          bind (QDoubleSpinBox_setValue data sb) (\<lambda>sb'. Ok (JSONNumberWidget b sb'))
      | JSONBooleanWidget b checked \<Rightarrow>
          bind (qt_bool data) (\<lambda>c. Ok (JSONBooleanWidget b c))
      | JSONArrayWidget b items_schema additional children \<Rightarrow>
          bind (py_iter data) (\<lambda>ds.
            load_array (load_json_object n R) (u_create_widget n R) self 0 ds))"

text \<open>
  \<^verbatim>\<open>create_widget(name, schema, schema_uri)\<close> builds the registry and the root context
  (code of \<^verbatim>\<open>tools.py\<close>) and calls the factory without a parent.
\<close>

definition create_widget :: "nat \<Rightarrow> 'c context_ops \<Rightarrow> string \<Rightarrow> json \<Rightarrow> 'c \<Rightarrow> 'c widget result" where
  "create_widget n R name schema ctx = u_create_widget n R name schema ctx None"


section \<open>Predicates of the statements\<close>

text \<open>
  \<open>item_added ld mk b its ad index data child\<close>: \<open>child\<close> is the widget that
  \<^verbatim>\<open>add_item(data)\<close> appends at position \<open>index\<close> to the array with base \<open>b\<close>, items
  schema \<open>its\<close> and additional items schema \<open>ad\<close>: the widget the factory builds for that
  position, loaded with \<open>data\<close> unless \<open>data\<close> is None.
\<close>

definition item_added ::
  "('c widget \<Rightarrow> json \<Rightarrow> 'c widget result) \<Rightarrow>
   (string \<Rightarrow> json \<Rightarrow> 'c \<Rightarrow> parent_ref \<Rightarrow> 'c widget result) \<Rightarrow>
   'c base \<Rightarrow> json \<Rightarrow> json \<Rightarrow> nat \<Rightarrow> json \<Rightarrow> 'c widget \<Rightarrow> bool" where
  "item_added ld mk b its ad index data child =
     (case bind (u_get_item_schema its ad index)
             (\<lambda>schema. mk (''Item #'' @ show_nat index) schema (base_ctx b)
                (Some (base_definitions b))) of
        Ok obj \<Rightarrow> (if data = JNull then child = obj else ld obj data = Ok child)
      | _ \<Rightarrow> False)"

text \<open>
  \<open>all_nodes P parent w\<close>: \<open>P\<close> holds of every node of the tree \<open>w\<close>, each taken with
  its parent (\<open>None\<close>, or \<open>Some\<close> of the parent's \<^verbatim>\<open>definitions\<close>); \<open>parent\<close> is the
  parent of the root \<open>w\<close>.
\<close>

fun all_nodes :: "(parent_ref \<Rightarrow> 'c widget \<Rightarrow> bool) \<Rightarrow> parent_ref \<Rightarrow> 'c widget \<Rightarrow> bool"
  and all_children :: "(parent_ref \<Rightarrow> 'c widget \<Rightarrow> bool) \<Rightarrow> parent_ref \<Rightarrow> 'c widget list \<Rightarrow> bool"
  and all_properties ::
    "(parent_ref \<Rightarrow> 'c widget \<Rightarrow> bool) \<Rightarrow> parent_ref \<Rightarrow> (string \<times> 'c widget) list \<Rightarrow> bool" where
  "all_nodes P parent (JSONObjectWidget b ps) =
     (P parent (JSONObjectWidget b ps) \<and> all_properties P (Some (base_definitions b)) ps)"
| "all_nodes P parent (JSONArrayWidget b its ad cs) =
     (P parent (JSONArrayWidget b its ad cs) \<and> all_children P (Some (base_definitions b)) cs)"
| "all_nodes P parent (UnsupportedSchemaWidget b) = P parent (UnsupportedSchemaWidget b)"
| "all_nodes P parent (JSONEnumWidget b es i) = P parent (JSONEnumWidget b es i)"
| "all_nodes P parent (JSONStringWidget b le) = P parent (JSONStringWidget b le)"
| "all_nodes P parent (JSONIntegerWidget b sb) = P parent (JSONIntegerWidget b sb)"
| "all_nodes P parent (JSONNumberWidget b sb) = P parent (JSONNumberWidget b sb)"
| "all_nodes P parent (JSONBooleanWidget b c) = P parent (JSONBooleanWidget b c)"
| "all_children P parent [] = True"
| "all_children P parent (c # cs) = (all_nodes P parent c \<and> all_children P parent cs)"
| "all_properties P parent [] = True"
| "all_properties P parent ((k, c) # ps) = (all_nodes P parent c \<and> all_properties P parent ps)"

text \<open>The rule of \<^verbatim>\<open>JSONBaseWidget.__init__\<close> for the attribute \<^verbatim>\<open>definitions\<close>.\<close>

definition definitions_rule :: "parent_ref \<Rightarrow> 'c widget \<Rightarrow> bool" where
  "definitions_rule parent w =
     (base_definitions (widget_base w) =
        (case map_of (base_schema (widget_base w)) ''definitions'' of
           Some d \<Rightarrow> d
         | None \<Rightarrow> (case parent of Some pd \<Rightarrow> pd | None \<Rightarrow> JObj [])))"

text \<open>The names under \<^verbatim>\<open>properties\<close> in a schema (none when the key is missing).\<close>

definition declared_properties :: "pydict \<Rightarrow> string set" where
  "declared_properties schema =
     (case map_of schema ''properties'' of Some (JObj kvs) \<Rightarrow> fst ` set kvs | _ \<Rightarrow> {})"

text \<open>
  What holds of every node that the factory has built, before and after loads: the rule
  for \<^verbatim>\<open>definitions\<close>; the keys of \<^verbatim>\<open>properties\<close> are distinct and are the declared
  names; the current index of a combo box is -1 when it is empty and an index of
  \<^verbatim>\<open>enum_values\<close> otherwise.
\<close>

definition node_ok :: "parent_ref \<Rightarrow> 'c widget \<Rightarrow> bool" where
  "node_ok parent w =
     (definitions_rule parent w \<and>
      (case w of
         JSONObjectWidget b ps \<Rightarrow>
           distinct (map fst ps) \<and> fst ` set ps = declared_properties (base_schema b)
       | JSONEnumWidget b es i \<Rightarrow> (if es = [] then i = - 1 else 0 \<le> i \<and> i < int (length es))
       | _ \<Rightarrow> True))"

text \<open>A series of calls of \<^verbatim>\<open>load_json_object\<close> on the same widget, in turn.\<close>

fun load_all :: "nat \<Rightarrow> 'c context_ops \<Rightarrow> 'c widget \<Rightarrow> json list \<Rightarrow> 'c widget result" where
  "load_all n R w [] = Ok w"
| "load_all n R w (v # vs) = bind (load_json_object n R w v) (\<lambda>w'. load_all n R w' vs)"



text \<open>
  \<open>fits w v\<close>: the value \<open>v\<close> has the shape of the tree \<open>w\<close> and passes each control
  unchanged. For an object, \<open>v\<close> is a dictionary whose keys are the keys of
  \<^verbatim>\<open>properties\<close>; for an array, a list with one element, not null, for each child; for a
  string, a str no longer than the line edit's \<open>maxLength\<close>; for an integer or a number, a
  number inside the range of the spin box (for a number, with two decimals at most); for
  a boolean, a bool (or 0 or 1); for an enumeration, any value; for an unsupported widget,
  none.
\<close>

fun fits :: "'c widget \<Rightarrow> json \<Rightarrow> bool"
  and fits_children :: "'c widget list \<Rightarrow> json list \<Rightarrow> bool"
  and fits_properties :: "(string \<times> 'c widget) list \<Rightarrow> (string \<times> json) list \<Rightarrow> bool" where
  "fits (UnsupportedSchemaWidget b) v = False"
| "fits (JSONObjectWidget b ps) v =
     (case v of
        JObj kvs \<Rightarrow>
          distinct (map fst kvs) \<and> fst ` set kvs = fst ` set ps \<and> fits_properties ps kvs
      | _ \<Rightarrow> False)"
| "fits (JSONEnumWidget b es i) v = True"
| "fits (JSONStringWidget b le) v =
     (case v of
        JStr s \<Rightarrow> le_maxLength le < 0 \<or> int (length s) \<le> le_maxLength le
      | _ \<Rightarrow> False)"
| "fits (JSONIntegerWidget b sb) v =
     (case int_of_json v of
        Some i \<Rightarrow> sb_minimum sb \<le> i \<and> i \<le> sb_maximum sb
      | None \<Rightarrow> False)"
| "fits (JSONNumberWidget b sb) v =
     (case num_of_json v of
        Some r \<Rightarrow> round2 r = r \<and> sb_minimum sb \<le> r \<and> r \<le> sb_maximum sb
      | None \<Rightarrow> False)"
| "fits (JSONBooleanWidget b c) v =
     (case int_of_json v of Some i \<Rightarrow> i = 0 \<or> i = 1 | None \<Rightarrow> False)"
| "fits (JSONArrayWidget b its ad cs) v =
     (case v of JArr ds \<Rightarrow> fits_children cs ds | _ \<Rightarrow> False)"
| "fits_children [] ds = (ds = [])"
| "fits_children (c # cs) ds =
     (case ds of [] \<Rightarrow> False | d # ds' \<Rightarrow> d \<noteq> JNull \<and> fits c d \<and> fits_children cs ds')"
| "fits_properties [] kvs = True"
| "fits_properties ((k, c) # ps) kvs =
     ((case map_of kvs k of Some v \<Rightarrow> fits c v | None \<Rightarrow> False) \<and> fits_properties ps kvs)"




section \<open>Example inputs\<close>

text \<open>A context in which no reference resolves, for schemas that contain none.\<close>

definition no_refs :: "unit context_ops" where
  "no_refs = \<lparr>follow_uri = (\<lambda>ctx i. Ok ctx), dereference = (\<lambda>ctx r. Raise ResolutionError)\<rparr>"

text \<open>An enumeration of three strings, showing its first entry.\<close>

definition ex_colour_schema :: pydict where
  "ex_colour_schema = [(''enum'', JArr [JStr ''a'', JStr ''b'', JStr ''c''])]"

definition ex_colour :: "unit widget" where
  "ex_colour =
     JSONEnumWidget (JSONBaseWidget_init ''colour'' ex_colour_schema () None)
       [JStr ''a'', JStr ''b'', JStr ''c''] 0"

text \<open>
  An object of two strings: its schema, and the widget that the factory builds from it,
  with given texts in its two line edits.
\<close>

definition ex_person_schema :: pydict where
  "ex_person_schema =
     [(''type'', JStr ''object''),
      (''properties'',
       JObj [(''name'', JObj [(''type'', JStr ''string'')]),
             (''nick'', JObj [(''type'', JStr ''string'')])])]"

definition ex_person_with :: "string \<Rightarrow> string \<Rightarrow> unit widget" where
  "ex_person_with name nick =
     JSONObjectWidget (JSONBaseWidget_init ''person'' ex_person_schema () None)
       [(''name'',
         JSONStringWidget
           (JSONBaseWidget_init ''name'' [(''type'', JStr ''string'')] () (Some (JObj [])))
           \<lparr>le_maxLength = 32767, le_text = name\<rparr>),
        (''nick'',
         JSONStringWidget
           (JSONBaseWidget_init ''nick'' [(''type'', JStr ''string'')] () (Some (JObj [])))
           \<lparr>le_maxLength = 32767, le_text = nick\<rparr>)]"

definition ex_person :: "unit widget" where
  "ex_person = ex_person_with [] []"

text \<open>
  An array of enumerations with the entries \<^verbatim>\<open>"a"\<close> and null: the schema of its items,
  the item at a position with a current index, and the array with given children.
\<close>

definition ex_choice_schema :: pydict where
  "ex_choice_schema = [(''enum'', JArr [JStr ''a'', JNull])]"

definition ex_choices_base :: "unit base" where
  "ex_choices_base =
     JSONBaseWidget_init ''choices''
       [(''type'', JStr ''array''), (''items'', JObj ex_choice_schema)] () None"


definition ex_choices :: "unit widget list \<Rightarrow> unit widget" where
  "ex_choices children = JSONArrayWidget ex_choices_base (JObj ex_choice_schema) JNull children"



text \<open>An object with \<^verbatim>\<open>definitions\<close> and one string property, and the tree built from it.\<close>

definition ex_defs_schema :: pydict where
  "ex_defs_schema =
     [(''definitions'', JObj [(''t'', JObj [(''type'', JStr ''string'')])]),
      (''type'', JStr ''object''),
      (''properties'', JObj [(''a'', JObj [(''type'', JStr ''string'')])])]"

definition ex_defs_widget :: "unit widget" where
  "ex_defs_widget =
     JSONObjectWidget
       \<lparr>base_name = ''root'', base_schema = ex_defs_schema, base_ctx = (),
        base_definitions = JObj [(''t'', JObj [(''type'', JStr ''string'')])]\<rparr>
       [(''a'',
         JSONStringWidget
           \<lparr>base_name = ''a'', base_schema = [(''type'', JStr ''string'')], base_ctx = (),
            base_definitions = JObj [(''t'', JObj [(''type'', JStr ''string'')])]\<rparr>
           QLineEdit)]"

text \<open>
  The object of two strings with a default that sets one of them, and a string with a
  default.
\<close>

definition ex_preset_schema :: pydict where
  "ex_preset_schema = ex_person_schema @ [(''default'', JObj [(''name'', JStr ''Ada'')])]"

definition ex_preset :: "unit widget" where
  "ex_preset =
     JSONObjectWidget (JSONBaseWidget_init ''person'' ex_preset_schema () None)
       [(''name'',
         JSONStringWidget
           (JSONBaseWidget_init ''name'' [(''type'', JStr ''string'')] () (Some (JObj [])))
           \<lparr>le_maxLength = 32767, le_text = ''Ada''\<rparr>),
        (''nick'',
         JSONStringWidget
           (JSONBaseWidget_init ''nick'' [(''type'', JStr ''string'')] () (Some (JObj [])))
           \<lparr>le_maxLength = 32767, le_text = []\<rparr>)]"

definition ex_greeting_schema :: pydict where
  "ex_greeting_schema = [(''type'', JStr ''string''), (''default'', JStr ''hi'')]"

definition ex_greeting :: "string \<Rightarrow> unit widget" where
  "ex_greeting text =
     JSONStringWidget (JSONBaseWidget_init ''greeting'' ex_greeting_schema () None)
       \<lparr>le_maxLength = 32767, le_text = text\<rparr>"

section \<open>Properties\<close>

declare u_create_widget.simps [simp del] load_json_object.simps [simp del]

lemma bind_eq_Ok: "bind m f = Ok y \<longleftrightarrow> (\<exists>x. m = Ok x \<and> f x = Ok y)"
  by (cases m) auto


lemma load_unsupported:
  "load_json_object (Suc n) R (UnsupportedSchemaWidget b) v = Ok (UnsupportedSchemaWidget b)"
  by (simp add: load_json_object.simps)



subsection \<open>The fallback of the factory\<close>



subsection \<open>Enumerations\<close>

lemma list_index_None: "list_index es v = None \<longleftrightarrow> (\<forall>e\<in>set es. \<not> py_eq e v)"
  by (induction es) auto

lemma list_index_Some:
  "list_index es v = Some j \<longleftrightarrow> j < length es \<and> py_eq (es ! j) v \<and> (\<forall>k<j. \<not> py_eq (es ! k) v)"
proof (induction es arbitrary: j)
  case Nil
  then show ?case by simp
next
  case (Cons e es)
  show ?case
  proof (cases j)
    case 0
    then show ?thesis by auto
  next
    case (Suc j')
    show ?thesis
    proof (cases "py_eq e v")
      case True
      then show ?thesis using Suc by auto
    next
      case False
      have "(\<forall>k<Suc j'. \<not> py_eq ((e # es) ! k) v) \<longleftrightarrow> (\<forall>k<j'. \<not> py_eq (es ! k) v)"
        using False by (auto simp: less_Suc_eq_0_disj)
      then show ?thesis using False Suc Cons.IH [of j'] by auto
    qed
  qed
qed

lemma load_enum:
  "load_json_object (Suc n) R (JSONEnumWidget b es i) v =
     (case list_index es v of None \<Rightarrow> Raise ValueError
      | Some j \<Rightarrow> Ok (JSONEnumWidget b es (int j)))"
  by (simp add: load_json_object.simps)

lemma load_object:
  "load_json_object (Suc n) R (JSONObjectWidget b properties) (JObj kvs) =
     bind (load_properties (load_json_object n R) properties kvs)
       (\<lambda>properties'. Ok (JSONObjectWidget b properties'))"
  by (simp add: load_json_object.simps)

lemma load_array_widget:
  "load_json_object (Suc n) R (JSONArrayWidget b its ad cs) data =
     bind (py_iter data) (\<lambda>ds.
       load_array (load_json_object n R) (u_create_widget n R) (JSONArrayWidget b its ad cs) 0 ds)"
  by (simp add: load_json_object.simps)

text \<open>
  Claim C3. Loading a value into an enumeration selects the first index whose entry equals
  the value (Python's \<^verbatim>\<open>==\<close>), and the dump is then that entry. When no entry equals
  the value the load raises ValueError (the error of \<^verbatim>\<open>list.index\<close>, which the
  specification calls ValueNotInEnumError), and the error reaches the caller: through the
  load of an enclosing object, through the load of an enclosing array, and through the
  factory when the value is the schema's \<^verbatim>\<open>default\<close>.
\<close>

theorem enum_load_selects_or_raises:
  "(j < length es \<and> py_eq (es ! j) v \<and> (\<forall>k<j. \<not> py_eq (es ! k) v) \<longrightarrow>
      load_json_object (Suc n) R (JSONEnumWidget b es i) v = Ok (JSONEnumWidget b es (int j)) \<and>
      dump_json_object (JSONEnumWidget b es (int j)) = Ok (es ! j))
   \<and> ((\<forall>e\<in>set es. \<not> py_eq e v) \<longrightarrow>
      load_json_object (Suc n) R (JSONEnumWidget b es i) v = Raise ValueError \<and>
      (map_of properties k = Some (JSONEnumWidget b es i) \<longrightarrow>
         load_json_object (Suc (Suc n)) R (JSONObjectWidget b' properties) (JObj ((k, v) # data))
           = Raise ValueError) \<and>
      load_json_object (Suc (Suc n)) R
          (JSONArrayWidget b' its ad (JSONEnumWidget b es i # children)) (JArr (v # vs))
        = Raise ValueError \<and>
      (map_of d ''id'' = None \<and> follow_refs (Suc n) R ctx (JObj d) = Ok schema \<and>
       map_of schema ''enum'' = Some (JArr es) \<and> map_of schema ''default'' = Some v \<longrightarrow>
         u_create_widget (Suc (Suc n)) R name (JObj d) ctx parent = Raise ValueError))"
proof (intro conjI impI)
  assume a: "j < length es \<and> py_eq (es ! j) v \<and> (\<forall>k<j. \<not> py_eq (es ! k) v)"
  then have "list_index es v = Some j" by (simp add: list_index_Some)
  then show "load_json_object (Suc n) R (JSONEnumWidget b es i) v = Ok (JSONEnumWidget b es (int j))"
    by (simp add: load_enum)
  from a show "dump_json_object (JSONEnumWidget b es (int j)) = Ok (es ! j)"
    by (simp add: py_getitem_def)
next
  assume a: "\<forall>e\<in>set es. \<not> py_eq e v"
  then have n: "list_index es v = None" by (simp add: list_index_None)
  then show r: "load_json_object (Suc n) R (JSONEnumWidget b es i) v = Raise ValueError"
    by (simp add: load_enum)
  show "load_json_object (Suc (Suc n)) R
          (JSONArrayWidget b' its ad (JSONEnumWidget b es i # children)) (JArr (v # vs))
        = Raise ValueError"
    by (simp add: load_array_widget r)
  {
    assume "map_of properties k = Some (JSONEnumWidget b es i)"
    then show "load_json_object (Suc (Suc n)) R (JSONObjectWidget b' properties) (JObj ((k, v) # data))
           = Raise ValueError"
      by (simp add: load_object r)
  }
  {
    assume h: "map_of d ''id'' = None \<and> follow_refs (Suc n) R ctx (JObj d) = Ok schema \<and>
       map_of schema ''enum'' = Some (JArr es) \<and> map_of schema ''default'' = Some v"
    then have s: "select_widget_class schema = Ok EnumClass"
      by (simp add: select_widget_class_def)
    have c: "construct_or_unsupported (u_create_widget (Suc n) R) EnumClass name schema ctx parent
       = Ok (JSONEnumWidget (JSONBaseWidget_init name schema ctx parent) es (if es = [] then - 1 else 0))"
      using h by (simp add: construct_or_unsupported_def construct_def JSONEnumWidget_init_def
          JSONPrimitiveBaseWidget_init_def)
    have i: "initialise (load_json_object (Suc n) R)
        (JSONEnumWidget (JSONBaseWidget_init name schema ctx parent) es (if es = [] then - 1 else 0))
        = Raise ValueError"
      using h by (simp add: initialise_def JSONBaseWidget_init_def r load_enum n)
    from h have h1: "map_of d ''id'' = None" and h2: "follow_refs (Suc n) R ctx (JObj d) = Ok schema"
      by simp_all
    show "u_create_widget (Suc (Suc n)) R name (JObj d) ctx parent = Raise ValueError"
      by (simp only: u_create_widget.simps(2) [of "Suc n" R name "JObj d" ctx parent]
          h1 h2 s c i bind.simps json.case option.case)
  }
qed

theorem enum_load_selects_or_raises_witness:
  "load_json_object (Suc 0) no_refs ex_colour (JStr ''b'')
     = Ok (JSONEnumWidget (JSONBaseWidget_init ''colour'' ex_colour_schema () None)
             [JStr ''a'', JStr ''b'', JStr ''c''] 1)
   \<and> dump_json_object (JSONEnumWidget (JSONBaseWidget_init ''colour'' ex_colour_schema () None)
             [JStr ''a'', JStr ''b'', JStr ''c''] 1) = Ok (JStr ''b'')
   \<and> load_json_object (Suc 0) no_refs ex_colour (JStr ''z'') = Raise ValueError
   \<and> load_json_object (Suc (Suc 0)) no_refs
        (JSONObjectWidget (JSONBaseWidget_init ''root'' [] () None) [(''colour'', ex_colour)])
        (JObj [(''colour'', JStr ''z'')]) = Raise ValueError
   \<and> load_json_object (Suc (Suc 0)) no_refs
        (JSONArrayWidget (JSONBaseWidget_init ''root'' [] () None) (JObj ex_colour_schema) JNull
           [ex_colour])
        (JArr [JStr ''z'']) = Raise ValueError
   \<and> u_create_widget (Suc (Suc 0)) no_refs ''colour''
        (JObj [(''enum'', JArr [JStr ''a'', JStr ''b'', JStr ''c'']), (''default'', JStr ''z'')])
        () None = Raise ValueError"
proof -
  let ?es = "[JStr ''a'', JStr ''b'', JStr ''c'']"
  let ?d = "[(''enum'', JArr ?es), (''default'', JStr ''z'')]"
  have p: "Suc 0 < length ?es \<and> py_eq (?es ! Suc 0) (JStr ''b'') \<and>
           (\<forall>k<Suc 0. \<not> py_eq (?es ! k) (JStr ''b''))"
    by simp
  have q: "\<forall>e\<in>set ?es. \<not> py_eq e (JStr ''z'')"
    by simp
  have m: "map_of [(''colour'', ex_colour)] ''colour'' = Some ex_colour"
    by simp
  have h: "map_of ?d ''id'' = None \<and> follow_refs (Suc 0) no_refs () (JObj ?d) = Ok ?d \<and>
       map_of ?d ''enum'' = Some (JArr ?es) \<and> map_of ?d ''default'' = Some (JStr ''z'')"
    by simp
  note t = enum_load_selects_or_raises [where es = ?es and n = 0 and R = no_refs
      and b = "JSONBaseWidget_init ''colour'' ex_colour_schema () None" and i = 0]
  from t [where j = "Suc 0" and v = "JStr ''b''"] p
  have 1: "load_json_object (Suc 0) no_refs ex_colour (JStr ''b'')
     = Ok (JSONEnumWidget (JSONBaseWidget_init ''colour'' ex_colour_schema () None) ?es 1)
   \<and> dump_json_object (JSONEnumWidget (JSONBaseWidget_init ''colour'' ex_colour_schema () None)
             ?es 1) = Ok (JStr ''b'')"
    by (simp add: ex_colour_def)
  from t [where v = "JStr ''z''" and properties = "[(''colour'', ex_colour)]" and k = "''colour''"
      and b' = "JSONBaseWidget_init ''root'' [] () None" and data = "[]"
      and its = "JObj ex_colour_schema" and ad = JNull and children = "[]" and vs = "[]"
      and d = ?d and ctx = "()" and schema = ?d and name = "''colour''" and parent = None] q m h
  have 2: "load_json_object (Suc 0) no_refs ex_colour (JStr ''z'') = Raise ValueError
   \<and> load_json_object (Suc (Suc 0)) no_refs
        (JSONObjectWidget (JSONBaseWidget_init ''root'' [] () None) [(''colour'', ex_colour)])
        (JObj [(''colour'', JStr ''z'')]) = Raise ValueError
   \<and> load_json_object (Suc (Suc 0)) no_refs
        (JSONArrayWidget (JSONBaseWidget_init ''root'' [] () None) (JObj ex_colour_schema) JNull
           [ex_colour])
        (JArr [JStr ''z'']) = Raise ValueError
   \<and> u_create_widget (Suc (Suc 0)) no_refs ''colour'' (JObj ?d) () None = Raise ValueError"
    unfolding ex_colour_def by blast
  from 1 2 show ?thesis by blast
qed

subsection \<open>The choice of the class\<close>

lemma select_widget_class_enum:
  "map_of schema ''enum'' = Some e \<Longrightarrow> select_widget_class schema = Ok EnumClass"
  by (simp add: select_widget_class_def)

lemma select_widget_class_type:
  "map_of schema ''enum'' = None \<Longrightarrow> map_of schema ''type'' = Some (JStr s) \<Longrightarrow>
   select_widget_class schema =
     Ok (if s = ''object'' then ObjectClass else if s = ''string'' then StringClass
         else if s = ''integer'' then IntegerClass else if s = ''number'' then NumberClass
         else if s = ''boolean'' then BooleanClass else if s = ''array'' then ArrayClass
         else UnsupportedClass)"
  by (simp add: select_widget_class_def schema_type_to_widget_class_def)

lemma select_widget_class_none:
  "map_of schema ''enum'' = None \<Longrightarrow> map_of schema ''type'' = None \<Longrightarrow>
   select_widget_class schema = Ok UnsupportedClass"
  by (simp add: select_widget_class_def)

text \<open>
  Claim C8. The order enum, then type, then unsupported holds, and a type that is a string
  outside the table gives the unsupported widget (the three lemmas above). A \<^verbatim>\<open>type\<close>
  that is a list, as JSON Schema allows (\<^verbatim>\<open>"type": ["string", "null"]\<close>), does not: the
  lookup in the table raises TypeError, and so does the factory.
\<close>

theorem list_type_raises:
  "select_widget_class [(''type'', JArr [JStr ''string'', JStr ''null''])] = Raise TypeError
   \<and> u_create_widget (Suc (Suc n)) R name (JObj [(''type'', JArr [JStr ''string'', JStr ''null''])])
       ctx parent = Raise TypeError"
  by (simp add: u_create_widget.simps select_widget_class_def)

subsection \<open>Objects\<close>

lemmas eval_defs =
  create_widget_def u_create_widget.simps load_json_object.simps no_refs_def
  select_widget_class_def schema_type_to_widget_class_def construct_or_unsupported_def
  construct_def UnsupportedSchemaWidget_init_def JSONObjectWidget_init_def
  JSONEnumWidget_init_def JSONStringWidget_init_def JSONIntegerWidget_init_def
  JSONNumberWidget_init_def JSONBooleanWidget_init_def JSONArrayWidget_init_def
  JSONPrimitiveBaseWidget_init_def JSONBaseWidget_init_def initialise_def dict_get_def
  QLineEdit_def QSpinBox_def QDoubleSpinBox_def setText_def setMaxLength_def le_truncate_def
  qt_str_def qt_int_def qt_double_def qt_bool_def add_item_def u_get_item_schema_def
  u_set_limits_def JSONIntegerWidget_step_def JSONNumberWidget_step_def py_add_def py_sub_def
  py_arith_def QSpinBox_setMinimum_def QSpinBox_setMaximum_def QSpinBox_setValue_def
  QDoubleSpinBox_setMinimum_def QDoubleSpinBox_setMaximum_def QDoubleSpinBox_setValue_def
  setMinimum_def setMaximum_def setValue_def setRange_def sb_bound_def py_getitem_def

lemma ex_person_created:
  "create_widget (Suc (Suc (Suc 0))) no_refs ''person'' (JObj ex_person_schema) () = Ok ex_person"
  by (simp add: eval_defs ex_person_schema_def ex_person_def ex_person_with_def)

lemma update_existing_keys:
  "map_of al k = Some c \<Longrightarrow> map fst (AList.update k c' al) = map fst al"
  by (induction al) (auto split: if_splits)

lemma load_properties_result:
  assumes "load_properties ld properties data = Ok properties'"
  shows "map fst properties' = map fst properties \<and>
         (\<forall>k. k \<notin> fst ` set data \<longrightarrow> map_of properties' k = map_of properties k) \<and>
         (\<forall>k \<in> fst ` set data. map_of properties k \<noteq> None) \<and>
         (distinct (map fst data) \<longrightarrow>
            (\<forall>(k, v) \<in> set data. \<exists>child child'. map_of properties k = Some child \<and>
                ld child v = Ok child' \<and> map_of properties' k = Some child'))"
  using assms
proof (induction data arbitrary: properties)
  case Nil
  then show ?case by simp
next
  case (Cons kv data)
  obtain k v where kv: "kv = (k, v)" by (cases kv)
  from Cons.prems kv obtain child child' where
    c: "map_of properties k = Some child" and l: "ld child v = Ok child'" and
    r: "load_properties ld (AList.update k child' properties) data = Ok properties'"
    by (auto simp: bind_eq_Ok split: option.splits)
  let ?p1 = "AList.update k child' properties"
  note ih = Cons.IH [OF r]
  have m1: "\<And>k'. k' \<noteq> k \<Longrightarrow> map_of ?p1 k' = map_of properties k'"
    by (simp add: update_conv')
  have mk: "map_of ?p1 k = Some child'"
    by (simp add: update_conv')
  have 1: "map fst properties' = map fst properties"
    using ih c by (simp add: update_existing_keys)
  have 2: "\<forall>k'. k' \<notin> fst ` set (kv # data) \<longrightarrow> map_of properties' k' = map_of properties k'"
    using ih m1 kv by auto
  have 3: "\<forall>k' \<in> fst ` set (kv # data). map_of properties k' \<noteq> None"
  proof
    fix k' assume "k' \<in> fst ` set (kv # data)"
    then consider "k' = k" | "k' \<noteq> k" "k' \<in> fst ` set data" using kv by auto
    then show "map_of properties k' \<noteq> None"
    proof cases
      case 1 then show ?thesis using c by simp
    next
      case 2
      then have "map_of ?p1 k' \<noteq> None" using ih by blast
      then show ?thesis using m1 2 by simp
    qed
  qed
  have 4: "distinct (map fst (kv # data)) \<longrightarrow>
            (\<forall>(k, v) \<in> set (kv # data). \<exists>child child'. map_of properties k = Some child \<and>
                ld child v = Ok child' \<and> map_of properties' k = Some child')"
  proof (intro impI ballI)
    fix x assume d: "distinct (map fst (kv # data))" and x: "x \<in> set (kv # data)"
    obtain k' v' where xe: "x = (k', v')" by (cases x)
    from d kv have kn: "k \<notin> fst ` set data" and dd: "distinct (map fst data)" by auto
    show "case x of (k, v) \<Rightarrow> \<exists>child child'. map_of properties k = Some child \<and>
                ld child v = Ok child' \<and> map_of properties' k = Some child'"
    proof (cases "x = kv")
      case True
      have "map_of properties' k = Some child'" using ih kn mk by simp
      then show ?thesis using True kv c l by auto
    next
      case False
      then have xin: "(k', v') \<in> set data" using x xe by simp
      then have ne: "k' \<noteq> k" using kn by force
      from ih dd xin obtain ch ch' where "map_of ?p1 k' = Some ch" "ld ch v' = Ok ch'"
        "map_of properties' k' = Some ch'" by blast
      then show ?thesis using xe m1 [OF ne] by auto
    qed
  qed
  from 1 2 3 4 show ?case by blast
qed

text \<open>
  Claim C2, as the code has it. \<^verbatim>\<open>self.properties[k]\<close> is a plain dictionary lookup:
  a key of the data that is no declared property raises KeyError (at once when it is the
  first key), so a load whose data has such a key never completes. A load that completes
  keeps the properties and their order, leaves every property untouched whose key the data
  does not have, and has delegated each key of the data to the child of that name.
\<close>

theorem object_load_delegates_or_raises:
  "(map_of properties k = None \<longrightarrow>
      load_json_object (Suc n) R (JSONObjectWidget b properties) (JObj ((k, v) # data))
        = Raise KeyError)
   \<and> ((\<exists>k \<in> fst ` set data. map_of properties k = None) \<longrightarrow>
      load_json_object (Suc n) R (JSONObjectWidget b properties) (JObj data) \<noteq> Ok w')
   \<and> (load_json_object (Suc n) R (JSONObjectWidget b properties) (JObj data) = Ok w' \<longrightarrow>
      (\<exists>properties'. w' = JSONObjectWidget b properties' \<and>
         map fst properties' = map fst properties \<and>
         (\<forall>k. k \<notin> fst ` set data \<longrightarrow> map_of properties' k = map_of properties k) \<and>
         (distinct (map fst data) \<longrightarrow>
            (\<forall>(k, v) \<in> set data. \<exists>child child'. map_of properties k = Some child \<and>
                load_json_object n R child v = Ok child' \<and>
                map_of properties' k = Some child'))))"
proof (intro conjI impI)
  assume "map_of properties k = None"
  then show "load_json_object (Suc n) R (JSONObjectWidget b properties) (JObj ((k, v) # data))
        = Raise KeyError"
    by (simp add: load_object)
next
  assume a: "\<exists>k \<in> fst ` set data. map_of properties k = None"
  show "load_json_object (Suc n) R (JSONObjectWidget b properties) (JObj data) \<noteq> Ok w'"
  proof
    assume "load_json_object (Suc n) R (JSONObjectWidget b properties) (JObj data) = Ok w'"
    then obtain ps where "load_properties (load_json_object n R) properties data = Ok ps"
      by (auto simp: load_object bind_eq_Ok)
    from load_properties_result [OF this] a show False by blast
  qed
next
  assume "load_json_object (Suc n) R (JSONObjectWidget b properties) (JObj data) = Ok w'"
  then obtain ps where p: "load_properties (load_json_object n R) properties data = Ok ps"
    and w: "w' = JSONObjectWidget b ps"
    by (auto simp: load_object bind_eq_Ok)
  from load_properties_result [OF p] w
  show "\<exists>properties'. w' = JSONObjectWidget b properties' \<and>
         map fst properties' = map fst properties \<and>
         (\<forall>k. k \<notin> fst ` set data \<longrightarrow> map_of properties' k = map_of properties k) \<and>
         (distinct (map fst data) \<longrightarrow>
            (\<forall>(k, v) \<in> set data. \<exists>child child'. map_of properties k = Some child \<and>
                load_json_object n R child v = Ok child' \<and>
                map_of properties' k = Some child'))"
    by blast
qed

theorem object_load_delegates_or_raises_witness:
  "load_json_object (Suc (Suc 0)) no_refs ex_person (JObj [(''age'', JInt 36)]) = Raise KeyError
   \<and> load_json_object (Suc (Suc 0)) no_refs ex_person (JObj [(''age'', JInt 36)])
       \<noteq> Ok ex_person
   \<and> (\<exists>properties'.
         ex_person_with ''Ada'' [] =
           JSONObjectWidget (JSONBaseWidget_init ''person'' ex_person_schema () None) properties' \<and>
         map fst properties' = [''name'', ''nick''] \<and>
         (\<exists>child child'.
            load_json_object (Suc 0) no_refs child (JStr ''Ada'') = Ok child' \<and>
            map_of properties' ''name'' = Some child'))"
proof -
  let ?b = "JSONBaseWidget_init ''person'' ex_person_schema () None"
  let ?ps = "[(''name'',
         JSONStringWidget
           (JSONBaseWidget_init ''name'' [(''type'', JStr ''string'')] () (Some (JObj [])))
           \<lparr>le_maxLength = 32767, le_text = []\<rparr>),
        (''nick'',
         JSONStringWidget
           (JSONBaseWidget_init ''nick'' [(''type'', JStr ''string'')] () (Some (JObj [])))
           \<lparr>le_maxLength = 32767, le_text = []\<rparr>)]"
  have e: "ex_person = JSONObjectWidget ?b ?ps"
    by (simp add: ex_person_def ex_person_with_def)
  have n: "map_of ?ps ''age'' = None" by simp
  have x: "\<exists>k \<in> fst ` set [(''age'', JInt 36)]. map_of ?ps k = None" by simp
  have l: "load_json_object (Suc (Suc 0)) no_refs (JSONObjectWidget ?b ?ps)
             (JObj [(''name'', JStr ''Ada'')]) = Ok (ex_person_with ''Ada'' [])"
    by (simp add: eval_defs ex_person_with_def)
  have d: "distinct (map fst [(''name'', JStr ''Ada'')])" by simp
  from object_load_delegates_or_raises [where properties = ?ps and k = "''age''" and b = ?b
      and n = "Suc 0" and R = no_refs and v = "JInt 36" and data = "[]"] n
  have 1: "load_json_object (Suc (Suc 0)) no_refs ex_person (JObj [(''age'', JInt 36)])
             = Raise KeyError"
    unfolding e by blast
  from object_load_delegates_or_raises [where properties = ?ps and b = ?b
      and n = "Suc 0" and R = no_refs and data = "[(''age'', JInt 36)]" and w' = ex_person] x
  have 2: "load_json_object (Suc (Suc 0)) no_refs ex_person (JObj [(''age'', JInt 36)])
             \<noteq> Ok ex_person"
    unfolding e by blast
  from object_load_delegates_or_raises [where properties = ?ps and b = ?b
      and n = "Suc 0" and R = no_refs and data = "[(''name'', JStr ''Ada'')]"
      and w' = "ex_person_with ''Ada'' []"] l d
  obtain properties' where
    "ex_person_with ''Ada'' [] = JSONObjectWidget ?b properties'"
    "map fst properties' = map fst ?ps"
    "\<forall>(k, v) \<in> set [(''name'', JStr ''Ada'')]. \<exists>child child'. map_of ?ps k = Some child \<and>
        load_json_object (Suc 0) no_refs child v = Ok child' \<and> map_of properties' k = Some child'"
    by blast
  then have 3: "\<exists>properties'.
         ex_person_with ''Ada'' [] = JSONObjectWidget ?b properties' \<and>
         map fst properties' = [''name'', ''nick''] \<and>
         (\<exists>child child'.
            load_json_object (Suc 0) no_refs child (JStr ''Ada'') = Ok child' \<and>
            map_of properties' ''name'' = Some child')"
    by auto
  from 1 2 3 show ?thesis by blast
qed

text \<open>
  The claim as the specification states it (keys without a matching property are ignored
  and the call completes) fails on the object of two strings: a key \<^verbatim>\<open>age\<close> raises
  KeyError.
\<close>

theorem unmatched_key_raises_KeyError:
  "load_json_object (Suc (Suc 0)) no_refs ex_person
     (JObj [(''name'', JStr ''Ada''), (''age'', JInt 36)]) = Raise KeyError"
  by (simp add: eval_defs ex_person_def ex_person_with_def)

subsection \<open>Arrays\<close>

lemma add_item_result:
  assumes "add_item ld mk (JSONArrayWidget b its ad cs) datum = Ok w'"
  shows "\<exists>c. w' = JSONArrayWidget b its ad (cs @ [c]) \<and>
           item_added ld mk b its ad (length cs) datum c"
  using assms
  by (cases "u_get_item_schema its ad (length cs)")
    (auto simp: add_item_def item_added_def Let_def bind_eq_Ok split: if_splits)

lemma load_array_result:
  assumes "load_array ld mk (JSONArrayWidget b its ad cs) i ds = Ok w'" and "i \<le> length cs"
  shows "\<exists>cs'. w' = JSONArrayWidget b its ad cs' \<and>
           length cs' = max (length cs) (i + length ds) \<and>
           (\<forall>j<i. cs' ! j = cs ! j) \<and>
           (\<forall>j. i + length ds \<le> j \<and> j < length cs \<longrightarrow> cs' ! j = cs ! j) \<and>
           (\<forall>j<length ds.
              (i + j < length cs \<longrightarrow> ld (cs ! (i + j)) (ds ! j) = Ok (cs' ! (i + j))) \<and>
              (length cs \<le> i + j \<longrightarrow>
                 item_added ld mk b its ad (i + j) (ds ! j) (cs' ! (i + j))))"
  using assms
proof (induction ds arbitrary: cs i)
  case Nil
  then show ?case by (auto simp: max_def)
next
  case (Cons d ds)
  show ?case
  proof (cases "i < length cs")
    case True
    with Cons.prems obtain c where c: "ld (cs ! i) d = Ok c"
      and r: "load_array ld mk (JSONArrayWidget b its ad (cs[i := c])) (Suc i) ds = Ok w'"
      by (auto simp: bind_eq_Ok)
    from True have le: "Suc i \<le> length (cs[i := c])" by simp
    from Cons.IH [OF r le] obtain cs' where w: "w' = JSONArrayWidget b its ad cs'"
      and len: "length cs' = max (length cs) (Suc i + length ds)"
      and pre: "\<forall>j<Suc i. cs' ! j = cs[i := c] ! j"
      and post: "\<forall>j. Suc i + length ds \<le> j \<and> j < length cs \<longrightarrow> cs' ! j = cs[i := c] ! j"
      and mid: "\<forall>j<length ds.
              (Suc i + j < length cs \<longrightarrow> ld (cs[i := c] ! (Suc i + j)) (ds ! j) = Ok (cs' ! (Suc i + j))) \<and>
              (length cs \<le> Suc i + j \<longrightarrow>
                 item_added ld mk b its ad (Suc i + j) (ds ! j) (cs' ! (Suc i + j)))"
      by auto
    have ci: "cs' ! i = c" using pre True by simp
    have 1: "length cs' = max (length cs) (i + length (d # ds))" using len by simp
    have 2: "\<forall>j<i. cs' ! j = cs ! j" using pre by simp
    have 3: "\<forall>j. i + length (d # ds) \<le> j \<and> j < length cs \<longrightarrow> cs' ! j = cs ! j"
      using post by simp
    have 4: "\<forall>j<length (d # ds).
              (i + j < length cs \<longrightarrow> ld (cs ! (i + j)) ((d # ds) ! j) = Ok (cs' ! (i + j))) \<and>
              (length cs \<le> i + j \<longrightarrow>
                 item_added ld mk b its ad (i + j) ((d # ds) ! j) (cs' ! (i + j)))"
    proof (intro allI impI)
      fix j assume j: "j < length (d # ds)"
      show "(i + j < length cs \<longrightarrow> ld (cs ! (i + j)) ((d # ds) ! j) = Ok (cs' ! (i + j))) \<and>
              (length cs \<le> i + j \<longrightarrow>
                 item_added ld mk b its ad (i + j) ((d # ds) ! j) (cs' ! (i + j)))"
      proof (cases j)
        case 0
        then show ?thesis using c ci True by simp
      next
        case (Suc j')
        then have "j' < length ds" using j by simp
        with mid have "(Suc i + j' < length cs \<longrightarrow> ld (cs[i := c] ! (Suc i + j')) (ds ! j') = Ok (cs' ! (Suc i + j'))) \<and>
              (length cs \<le> Suc i + j' \<longrightarrow>
                 item_added ld mk b its ad (Suc i + j') (ds ! j') (cs' ! (Suc i + j')))"
          by blast
        then show ?thesis using Suc by simp
      qed
    qed
    from w 1 2 3 4 show ?thesis by blast
  next
    case False
    with Cons.prems have il: "i = length cs" by simp
    from False Cons.prems obtain w1 where a: "add_item ld mk (JSONArrayWidget b its ad cs) d = Ok w1"
      and r: "load_array ld mk w1 (Suc i) ds = Ok w'"
      by (auto simp: bind_eq_Ok)
    from add_item_result [OF a] obtain c where w1: "w1 = JSONArrayWidget b its ad (cs @ [c])"
      and ia: "item_added ld mk b its ad (length cs) d c"
      by blast
    have le: "Suc i \<le> length (cs @ [c])" using il by simp
    from Cons.IH [OF r [unfolded w1] le] obtain cs' where w: "w' = JSONArrayWidget b its ad cs'"
      and len: "length cs' = max (length (cs @ [c])) (Suc i + length ds)"
      and pre: "\<forall>j<Suc i. cs' ! j = (cs @ [c]) ! j"
      and mid: "\<forall>j<length ds.
              (Suc i + j < length (cs @ [c]) \<longrightarrow> ld ((cs @ [c]) ! (Suc i + j)) (ds ! j) = Ok (cs' ! (Suc i + j))) \<and>
              (length (cs @ [c]) \<le> Suc i + j \<longrightarrow>
                 item_added ld mk b its ad (Suc i + j) (ds ! j) (cs' ! (Suc i + j)))"
      by auto
    have ci: "cs' ! i = c" using pre il by simp
    have 1: "length cs' = max (length cs) (i + length (d # ds))" using len il by simp
    have 2: "\<forall>j<i. cs' ! j = cs ! j" using pre il by (simp add: nth_append)
    have 3: "\<forall>j. i + length (d # ds) \<le> j \<and> j < length cs \<longrightarrow> cs' ! j = cs ! j"
      using il by auto
    have 4: "\<forall>j<length (d # ds).
              (i + j < length cs \<longrightarrow> ld (cs ! (i + j)) ((d # ds) ! j) = Ok (cs' ! (i + j))) \<and>
              (length cs \<le> i + j \<longrightarrow>
                 item_added ld mk b its ad (i + j) ((d # ds) ! j) (cs' ! (i + j)))"
    proof (intro allI impI)
      fix j assume j: "j < length (d # ds)"
      show "(i + j < length cs \<longrightarrow> ld (cs ! (i + j)) ((d # ds) ! j) = Ok (cs' ! (i + j))) \<and>
              (length cs \<le> i + j \<longrightarrow>
                 item_added ld mk b its ad (i + j) ((d # ds) ! j) (cs' ! (i + j)))"
      proof (cases j)
        case 0
        then show ?thesis using ia ci il by auto
      next
        case (Suc j')
        then have "j' < length ds" using j by simp
        with mid have "(length (cs @ [c]) \<le> Suc i + j' \<longrightarrow>
                 item_added ld mk b its ad (Suc i + j') (ds ! j') (cs' ! (Suc i + j')))"
          by blast
        then show ?thesis using Suc il by simp
      qed
    qed
    from w 1 2 3 4 show ?thesis by blast
  qed
qed

lemma ex_choices_created:
  "create_widget (Suc (Suc 0)) no_refs ''choices''
     (JObj [(''type'', JStr ''array''), (''items'', JObj ex_choice_schema)]) () = Ok (ex_choices [])"
  by (simp add: eval_defs ex_choices_def ex_choices_base_def ex_choice_schema_def)




subsection \<open>The limits of the spin boxes\<close>
















subsection \<open>What holds of every node\<close>

lemma all_children_iff: "all_children P p cs \<longleftrightarrow> (\<forall>c\<in>set cs. all_nodes P p c)"
  by (induction cs) auto

lemma all_properties_iff: "all_properties P p ps \<longleftrightarrow> (\<forall>c\<in>snd ` set ps. all_nodes P p c)"
  by (induction ps) auto

lemma all_nodes_mono_aux:
  assumes "\<And>p w. P p w \<Longrightarrow> Q p w"
  shows "(all_nodes P p w \<longrightarrow> all_nodes Q p w)"
    and "(all_children P p cs \<longrightarrow> all_children Q p cs)"
    and "(all_properties P p ps \<longrightarrow> all_properties Q p ps)"
  using assms
  by (induction P p w and P p cs and P p ps rule: all_nodes_all_children_all_properties.induct)
    auto

lemma all_nodes_mono:
  "all_nodes P p w \<Longrightarrow> (\<And>p w. P p w \<Longrightarrow> Q p w) \<Longrightarrow> all_nodes Q p w"
  using all_nodes_mono_aux(1) by blast

lemma all_nodes_here: "all_nodes P p w \<Longrightarrow> P p w"
  by (cases w) auto

lemma update_values:
  "c \<in> snd ` set (AList.update k v al) \<Longrightarrow> c = v \<or> c \<in> snd ` set al"
  by (induction al) (auto split: if_splits)

lemma create_properties_result:
  assumes "create_properties mk kvs acc = Ok ps" and "distinct (map fst acc)"
  shows "distinct (map fst ps) \<and> fst ` set ps = fst ` set acc \<union> fst ` set kvs \<and>
         (\<forall>c\<in>snd ` set ps. c \<in> snd ` set acc \<or> (\<exists>k v. mk k v = Ok c))"
  using assms
proof (induction kvs arbitrary: acc)
  case Nil
  then show ?case by simp
next
  case (Cons kv kvs)
  obtain k v where kv: "kv = (k, v)" by (cases kv)
  from Cons.prems(1) kv obtain w where m: "mk k v = Ok w"
    and r: "create_properties mk kvs (AList.update k w acc) = Ok ps"
    by (auto simp: bind_eq_Ok)
  have d: "distinct (map fst (AList.update k w acc))"
    using Cons.prems(2) by (simp add: distinct_update)
  from Cons.IH [OF r d] have 1: "distinct (map fst ps)"
    and 2: "fst ` set ps = fst ` set (AList.update k w acc) \<union> fst ` set kvs"
    and 3: "\<forall>c\<in>snd ` set ps. c \<in> snd ` set (AList.update k w acc) \<or> (\<exists>k v. mk k v = Ok c)"
    by blast+
  have k2: "fst ` set ps = fst ` set acc \<union> fst ` set (kv # kvs)"
    using 2 kv by (auto simp: dom_update)
  have k3: "\<forall>c\<in>snd ` set ps. c \<in> snd ` set acc \<or> (\<exists>k v. mk k v = Ok c)"
  proof
    fix c assume "c \<in> snd ` set ps"
    with 3 have "c \<in> snd ` set (AList.update k w acc) \<or> (\<exists>k v. mk k v = Ok c)" by blast
    then show "c \<in> snd ` set acc \<or> (\<exists>k v. mk k v = Ok c)"
      using update_values [of c k w acc] m by blast
  qed
  from 1 k2 k3 show ?case by blast
qed

lemma construct_or_unsupported_Ok:
  assumes "construct_or_unsupported mk cls name schema ctx parent = Ok w"
  shows "construct mk cls name schema ctx parent = Ok w \<or>
         w = UnsupportedSchemaWidget (JSONBaseWidget_init name schema ctx parent)"
  using assms
  by (auto simp: construct_or_unsupported_def UnsupportedSchemaWidget_init_def
      split: result.splits error.splits)

lemma definitions_rule_init:
  "widget_base w = JSONBaseWidget_init name schema ctx parent \<Longrightarrow> definitions_rule parent w"
  by (simp add: definitions_rule_def JSONBaseWidget_init_def)

lemma construct_inv:
  assumes mk: "\<forall>k v c p w. mk k v c p = Ok w \<longrightarrow> all_nodes node_ok p w"
    and c: "construct_or_unsupported mk cls name schema ctx parent = Ok w"
  shows "all_nodes node_ok parent w"
proof -
  let ?b = "JSONBaseWidget_init name schema ctx parent"
  have bs: "base_schema ?b = schema" by (simp add: JSONBaseWidget_init_def)
  from construct_or_unsupported_Ok [OF c]
  consider (u) "w = UnsupportedSchemaWidget ?b" | (k) "construct mk cls name schema ctx parent = Ok w"
    by blast
  then show ?thesis
  proof cases
    case u
    then show ?thesis by (simp add: node_ok_def definitions_rule_init)
  next
    case k
    show ?thesis
    proof (cases cls)
      case UnsupportedClass
      with k show ?thesis
        by (auto simp: construct_def UnsupportedSchemaWidget_init_def node_ok_def definitions_rule_init)
    next
      case ObjectClass
      with k have o: "JSONObjectWidget_init mk name schema ctx parent = Ok w"
        by (simp add: construct_def)
      show ?thesis
      proof (cases "map_of schema ''properties''")
        case None
        with o have "w = JSONObjectWidget ?b []"
          by (simp add: JSONObjectWidget_init_def)
        then show ?thesis
          using None by (simp add: node_ok_def definitions_rule_init declared_properties_def bs)
      next
        case (Some pj)
        with o obtain kvs where pj: "pj = JObj kvs"
          by (cases pj) (simp_all add: JSONObjectWidget_init_def Let_def)
        with o Some obtain ps where
          cp: "create_properties (\<lambda>k v. mk k v ctx (Some (base_definitions ?b))) kvs [] = Ok ps"
          and w: "w = JSONObjectWidget ?b ps"
          by (auto simp: JSONObjectWidget_init_def Let_def bind_eq_Ok)
        from create_properties_result [OF cp] have d: "distinct (map fst ps)"
          and ks: "fst ` set ps = fst ` set kvs"
          and ch: "\<forall>c\<in>snd ` set ps. \<exists>k v. mk k v ctx (Some (base_definitions ?b)) = Ok c"
          by auto
        have "all_properties node_ok (Some (base_definitions ?b)) ps"
          unfolding all_properties_iff using ch mk by blast
        then show ?thesis
          using w d ks Some pj
          by (simp add: node_ok_def definitions_rule_init declared_properties_def bs)
      qed
    next
      case EnumClass
      with k show ?thesis
        by (auto simp: construct_def JSONEnumWidget_init_def JSONPrimitiveBaseWidget_init_def
            node_ok_def definitions_rule_init split: option.splits json.splits)
    next
      case StringClass
      with k show ?thesis
        by (auto simp: construct_def JSONStringWidget_init_def JSONPrimitiveBaseWidget_init_def
            node_ok_def definitions_rule_init Let_def bind_eq_Ok split: if_splits)
    next
      case IntegerClass
      with k show ?thesis
        by (auto simp: construct_def JSONIntegerWidget_init_def JSONPrimitiveBaseWidget_init_def
            node_ok_def definitions_rule_init bind_eq_Ok)
    next
      case NumberClass
      with k show ?thesis
        by (auto simp: construct_def JSONNumberWidget_init_def JSONPrimitiveBaseWidget_init_def
            node_ok_def definitions_rule_init bind_eq_Ok)
    next
      case BooleanClass
      with k show ?thesis
        by (auto simp: construct_def JSONBooleanWidget_init_def JSONPrimitiveBaseWidget_init_def
            node_ok_def definitions_rule_init)
    next
      case ArrayClass
      with k show ?thesis
        by (auto simp: construct_def JSONArrayWidget_init_def Let_def
            node_ok_def definitions_rule_init split: option.splits)
    qed
  qed
qed

lemma load_properties_inv:
  assumes ld: "\<forall>c v c'. Q c \<longrightarrow> ld c v = Ok c' \<longrightarrow> Q c'"
    and l: "load_properties ld ps kvs = Ok ps'"
    and q: "\<forall>c\<in>snd ` set ps. Q c"
  shows "\<forall>c\<in>snd ` set ps'. Q c"
  using l q
proof (induction kvs arbitrary: ps)
  case Nil
  then show ?case by simp
next
  case (Cons kv kvs)
  obtain k v where kv: "kv = (k, v)" by (cases kv)
  from Cons.prems(1) kv obtain c c' where m: "map_of ps k = Some c" and lc: "ld c v = Ok c'"
    and r: "load_properties ld (AList.update k c' ps) kvs = Ok ps'"
    by (auto simp: bind_eq_Ok split: option.splits)
  from m have "c \<in> snd ` set ps" by (force dest: map_of_SomeD)
  with Cons.prems(2) have "Q c" by blast
  then have "Q c'" using lc ld by blast
  with Cons.prems(2) have "\<forall>x\<in>snd ` set (AList.update k c' ps). Q x"
    using update_values [of _ k c' ps] by blast
  from Cons.IH [OF r this] show ?case .
qed

lemma item_added_inv:
  assumes ld: "\<forall>c v c'. Q c \<longrightarrow> ld c v = Ok c' \<longrightarrow> Q c'"
    and mk: "\<forall>name s obj. mk name s (base_ctx b) (Some (base_definitions b)) = Ok obj \<longrightarrow> Q obj"
    and a: "item_added ld mk b its ad j d c"
  shows "Q c"
proof -
  from a obtain obj where
    o: "bind (u_get_item_schema its ad j)
          (\<lambda>schema. mk (''Item #'' @ show_nat j) schema (base_ctx b) (Some (base_definitions b)))
        = Ok obj"
    and c: "if d = JNull then c = obj else ld obj d = Ok c"
    by (auto simp: item_added_def split: result.splits)
  from o have "Q obj" using mk by (auto simp: bind_eq_Ok)
  with c show ?thesis using ld by (cases "d = JNull") auto
qed

lemma load_array_inv:
  assumes ld: "\<forall>c v c'. Q c \<longrightarrow> ld c v = Ok c' \<longrightarrow> Q c'"
    and mk: "\<forall>name s obj. mk name s (base_ctx b) (Some (base_definitions b)) = Ok obj \<longrightarrow> Q obj"
    and l: "load_array ld mk (JSONArrayWidget b its ad cs) 0 ds = Ok w'"
    and q: "\<forall>c\<in>set cs. Q c"
  shows "\<exists>cs'. w' = JSONArrayWidget b its ad cs' \<and> (\<forall>c\<in>set cs'. Q c)"
proof -
  from load_array_result [OF l] obtain cs' where w: "w' = JSONArrayWidget b its ad cs'"
    and len: "length cs' = max (length cs) (length ds)"
    and post: "\<forall>j. length ds \<le> j \<and> j < length cs \<longrightarrow> cs' ! j = cs ! j"
    and mid: "\<forall>j<length ds.
        (j < length cs \<longrightarrow> ld (cs ! j) (ds ! j) = Ok (cs' ! j)) \<and>
        (length cs \<le> j \<longrightarrow> item_added ld mk b its ad j (ds ! j) (cs' ! j))"
    by auto
  have "\<forall>j<length cs'. Q (cs' ! j)"
  proof (intro allI impI)
    fix j assume j: "j < length cs'"
    show "Q (cs' ! j)"
    proof (cases "j < length ds")
      case True
      show ?thesis
      proof (cases "j < length cs")
        case True
        with \<open>j < length ds\<close> mid have "ld (cs ! j) (ds ! j) = Ok (cs' ! j)" by blast
        moreover have "Q (cs ! j)" using True q by simp
        ultimately show ?thesis using ld by blast
      next
        case False
        with True mid have "item_added ld mk b its ad j (ds ! j) (cs' ! j)" by simp
        then show ?thesis
          by (rule item_added_inv [where Q = Q and ld = ld and mk = mk and b = b, OF ld mk])
      qed
    next
      case False
      with j len have jc: "j < length cs" by simp
      with False post have "cs' ! j = cs ! j" by simp
      then show ?thesis using jc q by simp
    qed
  qed
  then have "\<forall>c\<in>set cs'. Q c" by (auto simp: in_set_conv_nth)
  with w show ?thesis by blast
qed

lemma node_ok_same_base:
  "node_ok p (JSONObjectWidget b ps) \<Longrightarrow> map fst ps' = map fst ps \<Longrightarrow>
   fst ` set ps' = fst ` set ps \<Longrightarrow> node_ok p (JSONObjectWidget b ps')"
  "node_ok p (JSONArrayWidget b its ad cs) \<Longrightarrow> node_ok p (JSONArrayWidget b its ad cs')"
  "node_ok p (JSONStringWidget b le) \<Longrightarrow> node_ok p (JSONStringWidget b le')"
  "node_ok p (JSONIntegerWidget b sb) \<Longrightarrow> node_ok p (JSONIntegerWidget b sb')"
  "node_ok p (JSONNumberWidget b sbr) \<Longrightarrow> node_ok p (JSONNumberWidget b sbr')"
  "node_ok p (JSONBooleanWidget b c) \<Longrightarrow> node_ok p (JSONBooleanWidget b c')"
  "node_ok p (JSONEnumWidget b es i) \<Longrightarrow> j < length es \<Longrightarrow> node_ok p (JSONEnumWidget b es (int j))"
  by (auto simp: node_ok_def definitions_rule_def)

lemma load_inv_step:
  assumes ld: "\<forall>p c v c'. all_nodes node_ok p c \<longrightarrow> load_json_object n R c v = Ok c' \<longrightarrow>
                 all_nodes node_ok p c'"
    and mk: "\<forall>name s ctx p obj. u_create_widget n R name s ctx p = Ok obj \<longrightarrow>
                 all_nodes node_ok p obj"
    and a: "all_nodes node_ok parent w"
    and l: "load_json_object (Suc n) R w v = Ok w'"
  shows "all_nodes node_ok parent w'"
proof (cases w)
  case (UnsupportedSchemaWidget b)
  with l a show ?thesis by (simp add: load_unsupported)
next
  case (JSONObjectWidget b ps)
  with l obtain kvs where v: "v = JObj kvs"
    by (cases v) (simp_all add: load_json_object.simps)
  with l JSONObjectWidget obtain ps' where
    lp: "load_properties (load_json_object n R) ps kvs = Ok ps'" and w': "w' = JSONObjectWidget b ps'"
    by (auto simp: load_object bind_eq_Ok)
  from a JSONObjectWidget have n: "node_ok parent (JSONObjectWidget b ps)"
    and ch: "\<forall>c\<in>snd ` set ps. all_nodes node_ok (Some (base_definitions b)) c"
    by (simp_all add: all_properties_iff)
  from load_properties_result [OF lp] have k: "map fst ps' = map fst ps" by blast
  then have "set (map fst ps') = set (map fst ps)" by simp
  then have ks: "fst ` set ps' = fst ` set ps" by simp
  have "\<forall>c\<in>snd ` set ps'. all_nodes node_ok (Some (base_definitions b)) c"
  proof (rule load_properties_inv [OF _ lp ch])
    show "\<forall>c v c'. all_nodes node_ok (Some (base_definitions b)) c \<longrightarrow>
        load_json_object n R c v = Ok c' \<longrightarrow> all_nodes node_ok (Some (base_definitions b)) c'"
      using ld by blast
  qed
  with node_ok_same_base(1) [OF n k ks] w' show ?thesis by (simp add: all_properties_iff)
next
  case (JSONEnumWidget b es i)
  with l obtain j where j: "list_index es v = Some j" and w': "w' = JSONEnumWidget b es (int j)"
    by (auto simp: load_enum split: option.splits)
  from j have "j < length es" by (simp add: list_index_Some)
  with a JSONEnumWidget w' show ?thesis by (simp add: node_ok_same_base)
next
  case (JSONStringWidget b le)
  with l obtain le' where "w' = JSONStringWidget b le'"
    by (auto simp: load_json_object.simps bind_eq_Ok)
  with a JSONStringWidget show ?thesis by (simp add: node_ok_same_base)
next
  case (JSONIntegerWidget b sb)
  with l obtain sb' where "w' = JSONIntegerWidget b sb'"
    by (auto simp: load_json_object.simps bind_eq_Ok)
  with a JSONIntegerWidget show ?thesis by (simp add: node_ok_same_base)
next
  case (JSONNumberWidget b sb)
  with l obtain sb' where "w' = JSONNumberWidget b sb'"
    by (auto simp: load_json_object.simps bind_eq_Ok)
  with a JSONNumberWidget show ?thesis by (simp add: node_ok_same_base)
next
  case (JSONBooleanWidget b c)
  with l obtain c' where "w' = JSONBooleanWidget b c'"
    by (auto simp: load_json_object.simps bind_eq_Ok)
  with a JSONBooleanWidget show ?thesis by (simp add: node_ok_same_base)
next
  case (JSONArrayWidget b its ad cs)
  with l obtain ds where
    la: "load_array (load_json_object n R) (u_create_widget n R) (JSONArrayWidget b its ad cs) 0 ds
           = Ok w'"
    by (auto simp: load_array_widget bind_eq_Ok)
  from a JSONArrayWidget have n: "node_ok parent (JSONArrayWidget b its ad cs)"
    and ch: "\<forall>c\<in>set cs. all_nodes node_ok (Some (base_definitions b)) c"
    by (simp_all add: all_children_iff)
  have ld1: "\<forall>c v c'. all_nodes node_ok (Some (base_definitions b)) c \<longrightarrow>
      load_json_object n R c v = Ok c' \<longrightarrow> all_nodes node_ok (Some (base_definitions b)) c'"
    using ld by blast
  have mk1: "\<forall>name s obj.
      u_create_widget n R name s (base_ctx b) (Some (base_definitions b)) = Ok obj
      \<longrightarrow> all_nodes node_ok (Some (base_definitions b)) obj"
    using mk by blast
  from load_array_inv [OF ld1 mk1 la ch]
  obtain cs' where w': "w' = JSONArrayWidget b its ad cs'"
    and ch': "\<forall>c\<in>set cs'. all_nodes node_ok (Some (base_definitions b)) c"
    by blast
  with node_ok_same_base(2) [OF n] show ?thesis by (simp add: all_children_iff)
qed

lemma create_inv_step:
  assumes ld: "\<forall>p c v c'. all_nodes node_ok p c \<longrightarrow> load_json_object n R c v = Ok c' \<longrightarrow>
                 all_nodes node_ok p c'"
    and mk: "\<forall>name s ctx p obj. u_create_widget n R name s ctx p = Ok obj \<longrightarrow>
                 all_nodes node_ok p obj"
    and c: "u_create_widget (Suc n) R name schema ctx parent = Ok w"
  shows "all_nodes node_ok parent w"
proof -
  from c obtain d where s: "schema = JObj d"
    by (cases schema) (simp_all add: u_create_widget.simps)
  from c [unfolded s u_create_widget.simps(2) [of n R name "JObj d" ctx parent]]
  obtain ctx' schema' cls w0 where
    co: "construct_or_unsupported (u_create_widget n R) cls name schema' ctx' parent = Ok w0"
    and i: "initialise (load_json_object n R) w0 = Ok w"
    by (auto simp: bind_eq_Ok)
  have w0: "all_nodes node_ok parent w0"
    by (rule construct_inv [OF mk co])
  show ?thesis
  proof (cases "map_of (base_schema (widget_base w0)) ''default''")
    case None
    with i w0 show ?thesis by (simp add: initialise_def)
  next
    case (Some dflt)
    with i have "load_json_object n R w0 dflt = Ok w" by (simp add: initialise_def)
    with w0 ld show ?thesis by blast
  qed
qed

lemma tree_invariant:
  "(u_create_widget n R name schema ctx parent = Ok w \<longrightarrow> all_nodes node_ok parent w) \<and>
   (all_nodes node_ok parent w \<longrightarrow> load_json_object n R w v = Ok w' \<longrightarrow> all_nodes node_ok parent w')"
proof (induction n arbitrary: name schema ctx parent w v w')
  case 0
  show ?case by (simp add: u_create_widget.simps load_json_object.simps)
next
  case (Suc n)
  have ld: "\<forall>p c v c'. all_nodes node_ok p c \<longrightarrow> load_json_object n R c v = Ok c' \<longrightarrow>
                 all_nodes node_ok p c'"
    using Suc.IH by blast
  have mk: "\<forall>name s ctx p obj. u_create_widget n R name s ctx p = Ok obj \<longrightarrow>
                 all_nodes node_ok p obj"
    using Suc.IH by blast
  show ?case
    using create_inv_step [OF ld mk] load_inv_step [OF ld mk] by blast
qed

lemma created_ok: "u_create_widget n R name schema ctx parent = Ok w \<Longrightarrow> all_nodes node_ok parent w"
  using tree_invariant [of n R name schema ctx parent w] by simp

lemma loaded_ok:
  "all_nodes node_ok parent w \<Longrightarrow> load_json_object n R w v = Ok w' \<Longrightarrow> all_nodes node_ok parent w'"
  using tree_invariant [of n R _ _ _ parent w v w'] by simp

lemma load_all_ok:
  "all_nodes node_ok parent w \<Longrightarrow> load_all n R w vs = Ok w' \<Longrightarrow> all_nodes node_ok parent w'"
proof (induction vs arbitrary: w)
  case Nil
  then show ?case by simp
next
  case (Cons v vs)
  from Cons.prems(2) obtain w1 where 1: "load_json_object n R w v = Ok w1"
    and 2: "load_all n R w1 vs = Ok w'"
    by (auto simp: bind_eq_Ok)
  from loaded_ok [OF Cons.prems(1) 1] 2 show ?case by (rule Cons.IH)
qed

lemma ex_defs_created:
  "u_create_widget (Suc (Suc (Suc 0))) no_refs ''root'' (JObj ex_defs_schema) () None
     = Ok ex_defs_widget"
  by (simp add: eval_defs ex_defs_schema_def ex_defs_widget_def)

text \<open>
  Claim C10. In a tree that the factory has built, and after any loads into it, every node
  has as its \<^verbatim>\<open>definitions\<close> the \<^verbatim>\<open>definitions\<close> entry of its own (dereferenced) schema when
  there is one, otherwise the \<^verbatim>\<open>definitions\<close> of its parent when it has a parent, otherwise
  the empty dictionary.
\<close>

theorem definitions_inherited:
  assumes "u_create_widget k R name schema ctx parent = Ok w0"
    and "load_all n R w0 vs = Ok w"
  shows "all_nodes definitions_rule parent w"
proof -
  have "all_nodes node_ok parent w"
    using created_ok [OF assms(1)] assms(2) by (rule load_all_ok)
  then show ?thesis
    by (rule all_nodes_mono) (simp add: node_ok_def)
qed

theorem definitions_inherited_witness:
  "all_nodes definitions_rule None ex_defs_widget
   \<and> base_definitions (widget_base ex_defs_widget) = JObj [(''t'', JObj [(''type'', JStr ''string'')])]"
proof -
  have l: "load_all 0 no_refs ex_defs_widget [] = Ok ex_defs_widget" by simp
  from definitions_inherited [OF ex_defs_created l] show ?thesis
    by (simp add: ex_defs_widget_def)
qed









subsection \<open>Load, then dump\<close>

lemma py_eq_items_iff:
  "py_eq_items a b \<longleftrightarrow> (\<forall>(k, x)\<in>set a. \<exists>v. map_of b k = Some v \<and> py_eq x v)"
  by (induction a) (auto split: option.splits)

lemma py_eq_list_iff: "py_eq_list xs ys \<longleftrightarrow> list_all2 py_eq xs ys"
  by (induction xs arbitrary: ys) (auto split: list.splits simp: list_all2_Cons1)

lemma fits_children_iff:
  "fits_children cs ds \<longleftrightarrow> list_all2 (\<lambda>c d. d \<noteq> JNull \<and> fits c d) cs ds"
  by (induction cs arbitrary: ds) (auto split: list.splits simp: list_all2_Cons1)

lemma fits_properties_iff:
  "fits_properties ps kvs \<longleftrightarrow> (\<forall>(k, c)\<in>set ps. \<exists>v. map_of kvs k = Some v \<and> fits c v)"
  by (induction ps) (auto split: option.splits)

lemma dump_list_ok:
  assumes "length cs = length ds"
    and "\<forall>i<length cs. \<exists>x. dump_json_object (cs ! i) = Ok x \<and> py_eq x (ds ! i)"
  shows "\<exists>xs. dump_list cs = Ok xs \<and> list_all2 py_eq xs ds"
  using assms
proof (induction cs arbitrary: ds)
  case Nil
  then show ?case by simp
next
  case (Cons c cs)
  then obtain d ds' where ds: "ds = d # ds'" by (cases ds) auto
  from Cons.prems(2) have "\<exists>x. dump_json_object ((c # cs) ! 0) = Ok x \<and> py_eq x (ds ! 0)" by blast
  then obtain x where x: "dump_json_object c = Ok x" "py_eq x d" using ds by auto
  have "\<forall>i<length cs. \<exists>x. dump_json_object (cs ! i) = Ok x \<and> py_eq x (ds' ! i)"
  proof (intro allI impI)
    fix i assume "i < length cs"
    then have "Suc i < length (c # cs)" by simp
    with Cons.prems(2) have "\<exists>x. dump_json_object ((c # cs) ! Suc i) = Ok x \<and> py_eq x (ds ! Suc i)"
      by blast
    then show "\<exists>x. dump_json_object (cs ! i) = Ok x \<and> py_eq x (ds' ! i)" using ds by simp
  qed
  moreover have "length cs = length ds'" using Cons.prems(1) ds by simp
  ultimately obtain xs where "dump_list cs = Ok xs" "list_all2 py_eq xs ds'"
    using Cons.IH by blast
  with x ds show ?case by simp
qed

lemma dump_properties_ok:
  assumes "\<forall>(k, c)\<in>set ps. \<exists>x. dump_json_object c = Ok x \<and> Q k x"
  shows "\<exists>kvs. dump_properties ps = Ok kvs \<and> map fst kvs = map fst ps \<and> (\<forall>(k, x)\<in>set kvs. Q k x)"
  using assms
proof (induction ps)
  case Nil
  then show ?case by simp
next
  case (Cons kc ps)
  obtain k c where kc: "kc = (k, c)" by (cases kc)
  from Cons.prems kc obtain x where x: "dump_json_object c = Ok x" "Q k x" by auto
  from Cons.prems have "\<forall>(k, c)\<in>set ps. \<exists>x. dump_json_object c = Ok x \<and> Q k x" by simp
  from Cons.IH [OF this] obtain kvs where "dump_properties ps = Ok kvs" "map fst kvs = map fst ps"
    "\<forall>(k, x)\<in>set kvs. Q k x" by blast
  with x kc show ?case by simp
qed

lemma item_added_loaded:
  assumes "item_added ld mk b its ad j d c" and "d \<noteq> JNull"
  shows "\<exists>name schema obj. mk name schema (base_ctx b) (Some (base_definitions b)) = Ok obj \<and>
           ld obj d = Ok c"
  using assms by (auto simp: item_added_def bind_eq_Ok split: result.splits)

lemma round_trip_leaf:
  "load_json_object (Suc n) R (JSONStringWidget b le) v = Ok w' \<Longrightarrow> fits w' v \<Longrightarrow>
     \<exists>j. dump_json_object w' = Ok j \<and> py_eq j v"
  "load_json_object (Suc n) R (JSONIntegerWidget b sb) v = Ok w' \<Longrightarrow> fits w' v \<Longrightarrow>
     \<exists>j. dump_json_object w' = Ok j \<and> py_eq j v"
  "load_json_object (Suc n) R (JSONNumberWidget b sbr) v = Ok w' \<Longrightarrow> fits w' v \<Longrightarrow>
     \<exists>j. dump_json_object w' = Ok j \<and> py_eq j v"
  "load_json_object (Suc n) R (JSONBooleanWidget b c) v = Ok w' \<Longrightarrow> fits w' v \<Longrightarrow>
     \<exists>j. dump_json_object w' = Ok j \<and> py_eq j v"
  "load_json_object (Suc n) R (JSONEnumWidget b es i) v = Ok w' \<Longrightarrow>
     \<exists>j. dump_json_object w' = Ok j \<and> py_eq j v"
proof -
  show "load_json_object (Suc n) R (JSONStringWidget b le) v = Ok w' \<Longrightarrow> fits w' v \<Longrightarrow>
     \<exists>j. dump_json_object w' = Ok j \<and> py_eq j v"
    by (cases v) (auto simp: load_json_object.simps qt_str_def setText_def le_truncate_def)
  show "load_json_object (Suc n) R (JSONIntegerWidget b sb) v = Ok w' \<Longrightarrow> fits w' v \<Longrightarrow>
     \<exists>j. dump_json_object w' = Ok j \<and> py_eq j v"
    by (cases v) (auto simp: load_json_object.simps QSpinBox_setValue_def qt_int_def setValue_def
        sb_bound_def bind_eq_Ok split: if_splits)
  show "load_json_object (Suc n) R (JSONNumberWidget b sbr) v = Ok w' \<Longrightarrow> fits w' v \<Longrightarrow>
     \<exists>j. dump_json_object w' = Ok j \<and> py_eq j v"
    by (cases v) (auto simp: load_json_object.simps QDoubleSpinBox_setValue_def qt_double_def
        setValue_def sb_bound_def bind_eq_Ok split: if_splits)
  show "load_json_object (Suc n) R (JSONBooleanWidget b c) v = Ok w' \<Longrightarrow> fits w' v \<Longrightarrow>
     \<exists>j. dump_json_object w' = Ok j \<and> py_eq j v"
    by (cases v) (auto simp: load_json_object.simps qt_bool_def bind_eq_Ok split: if_splits)
  show "load_json_object (Suc n) R (JSONEnumWidget b es i) v = Ok w' \<Longrightarrow>
     \<exists>j. dump_json_object w' = Ok j \<and> py_eq j v"
    by (auto simp: load_enum list_index_Some py_getitem_def Let_def split: option.splits)
qed

lemma round_trip_object:
  assumes ih: "\<forall>p c v c'. all_nodes node_ok p c \<longrightarrow> load_json_object n R c v = Ok c' \<longrightarrow>
                 fits c' v \<longrightarrow> (\<exists>j. dump_json_object c' = Ok j \<and> py_eq j v)"
    and a: "all_nodes node_ok p (JSONObjectWidget b ps)"
    and l: "load_json_object (Suc n) R (JSONObjectWidget b ps) v = Ok w'"
    and f: "fits w' v"
  shows "\<exists>j. dump_json_object w' = Ok j \<and> py_eq j v"
proof -
  from l obtain kvs where v: "v = JObj kvs"
    by (cases v) (simp_all add: load_json_object.simps)
  with l obtain ps' where lp: "load_properties (load_json_object n R) ps kvs = Ok ps'"
    and w': "w' = JSONObjectWidget b ps'"
    by (auto simp: load_object bind_eq_Ok)
  from f v w' have f1: "distinct (map fst kvs) \<and> fst ` set kvs = fst ` set ps' \<and>
      fits_properties ps' kvs"
    by simp
  then have dk: "distinct (map fst kvs)" and ks: "fst ` set kvs = fst ` set ps'" by blast+
  from f1 have fp: "\<forall>(k, c)\<in>set ps'. \<exists>v. map_of kvs k = Some v \<and> fits c v"
    using fits_properties_iff [of ps' kvs] by blast
  from a have dp: "distinct (map fst ps)"
    and ch: "\<forall>c\<in>snd ` set ps. all_nodes node_ok (Some (base_definitions b)) c"
    by (simp_all add: node_ok_def all_properties_iff)
  from load_properties_result [OF lp] dk have mf: "map fst ps' = map fst ps"
    and del: "\<forall>(k, v)\<in>set kvs. \<exists>child child'. map_of ps k = Some child \<and>
                load_json_object n R child v = Ok child' \<and> map_of ps' k = Some child'"
    by blast+
  from mf dp have dp': "distinct (map fst ps')" by simp
  let ?Q = "\<lambda>k x. \<exists>v. map_of kvs k = Some v \<and> py_eq x v"
  have "\<forall>(k, c')\<in>set ps'. \<exists>x. dump_json_object c' = Ok x \<and> ?Q k x"
  proof (intro ballI, clarify)
    fix k c' assume in': "(k, c') \<in> set ps'"
    with fp obtain u where u: "map_of kvs k = Some u" and fu: "fits c' u" by blast
    from u have "(k, u) \<in> set kvs" by (rule map_of_SomeD)
    with del obtain child child' where m: "map_of ps k = Some child"
      and lc: "load_json_object n R child u = Ok child'" and m': "map_of ps' k = Some child'"
      by blast
    from dp' in' have "map_of ps' k = Some c'" by simp
    with m' have e: "child' = c'" by simp
    from m have "child \<in> snd ` set ps" by (force dest: map_of_SomeD)
    with ch have "all_nodes node_ok (Some (base_definitions b)) child" by blast
    with ih lc fu e obtain x where "dump_json_object c' = Ok x" "py_eq x u" by blast
    with u show "\<exists>x. dump_json_object c' = Ok x \<and> (\<exists>v. map_of kvs k = Some v \<and> py_eq x v)"
      by blast
  qed
  from dump_properties_ok [where Q = ?Q, OF this] obtain kvs' where
    d: "dump_properties ps' = Ok kvs'" and mk: "map fst kvs' = map fst ps'"
    and q: "\<forall>(k, x)\<in>set kvs'. \<exists>v. map_of kvs k = Some v \<and> py_eq x v"
    by blast
  have "card (fst ` set kvs) = length kvs"
    using dk distinct_card [of "map fst kvs"] by simp
  moreover have "card (fst ` set ps') = length ps'"
    using dp' distinct_card [of "map fst ps'"] by simp
  moreover have "length kvs' = length ps'"
    using mk by (metis length_map)
  ultimately have len: "length kvs' = length kvs" using ks by simp
  from d have "dump_json_object w' = Ok (JObj kvs')" using w' by simp
  moreover have "py_eq (JObj kvs') v" using v len q by (simp add: py_eq_items_iff)
  ultimately show ?thesis by blast
qed

lemma round_trip_array:
  assumes ih: "\<forall>p c v c'. all_nodes node_ok p c \<longrightarrow> load_json_object n R c v = Ok c' \<longrightarrow>
                 fits c' v \<longrightarrow> (\<exists>j. dump_json_object c' = Ok j \<and> py_eq j v)"
    and a: "all_nodes node_ok p (JSONArrayWidget b its ad cs)"
    and l: "load_json_object (Suc n) R (JSONArrayWidget b its ad cs) v = Ok w'"
    and f: "fits w' v"
  shows "\<exists>j. dump_json_object w' = Ok j \<and> py_eq j v"
proof -
  from l obtain ds0 where it: "py_iter v = Ok ds0"
    and la0: "load_array (load_json_object n R) (u_create_widget n R)
               (JSONArrayWidget b its ad cs) 0 ds0 = Ok w'"
    by (auto simp: load_array_widget bind_eq_Ok)
  from load_array_result [OF la0] obtain cs0 where w0: "w' = JSONArrayWidget b its ad cs0"
    by auto
  with f obtain ds where v: "v = JArr ds" by (cases v) simp_all
  with it have "ds0 = ds" by simp
  with la0 have la: "load_array (load_json_object n R) (u_create_widget n R)
               (JSONArrayWidget b its ad cs) 0 ds = Ok w'" by simp
  from load_array_result [OF la] obtain cs' where w': "w' = JSONArrayWidget b its ad cs'"
    and mid: "\<forall>j<length ds.
        (j < length cs \<longrightarrow> load_json_object n R (cs ! j) (ds ! j) = Ok (cs' ! j)) \<and>
        (length cs \<le> j \<longrightarrow>
           item_added (load_json_object n R) (u_create_widget n R) b its ad j (ds ! j) (cs' ! j))"
    by auto
  from f v w' have fc: "list_all2 (\<lambda>c d. d \<noteq> JNull \<and> fits c d) cs' ds"
    by (simp add: fits_children_iff)
  then have len: "length cs' = length ds"
    and el: "\<forall>i<length cs'. ds ! i \<noteq> JNull \<and> fits (cs' ! i) (ds ! i)"
    by (simp_all add: list_all2_conv_all_nth)
  from a have ch: "\<forall>c\<in>set cs. all_nodes node_ok (Some (base_definitions b)) c"
    by (simp add: all_children_iff)
  have "\<forall>i<length cs'. \<exists>x. dump_json_object (cs' ! i) = Ok x \<and> py_eq x (ds ! i)"
  proof (intro allI impI)
    fix i assume i: "i < length cs'"
    with el have nn: "ds ! i \<noteq> JNull" and fi: "fits (cs' ! i) (ds ! i)" by blast+
    from i len have id: "i < length ds" by simp
    show "\<exists>x. dump_json_object (cs' ! i) = Ok x \<and> py_eq x (ds ! i)"
    proof (cases "i < length cs")
      case True
      with mid id have "load_json_object n R (cs ! i) (ds ! i) = Ok (cs' ! i)" by blast
      moreover have "all_nodes node_ok (Some (base_definitions b)) (cs ! i)" using ch True by simp
      ultimately show ?thesis using ih fi by blast
    next
      case False
      with mid id have "item_added (load_json_object n R) (u_create_widget n R) b its ad i
          (ds ! i) (cs' ! i)" by simp
      from item_added_loaded [OF this nn] obtain name schema obj where
        mk: "u_create_widget n R name schema (base_ctx b) (Some (base_definitions b)) = Ok obj"
        and lo: "load_json_object n R obj (ds ! i) = Ok (cs' ! i)"
        by blast
      from created_ok [OF mk] lo ih fi show ?thesis by blast
    qed
  qed
  from dump_list_ok [OF len this] obtain xs where "dump_list cs' = Ok xs" "list_all2 py_eq xs ds"
    by blast
  then show ?thesis using w' v by (simp add: py_eq_list_iff)
qed

lemma round_trip:
  "all_nodes node_ok p w \<Longrightarrow> load_json_object n R w v = Ok w' \<Longrightarrow> fits w' v \<Longrightarrow>
     \<exists>j. dump_json_object w' = Ok j \<and> py_eq j v"
proof (induction n arbitrary: p w v w')
  case 0
  then show ?case by (simp add: load_json_object.simps)
next
  case (Suc n)
  have ih: "\<forall>p c v c'. all_nodes node_ok p c \<longrightarrow> load_json_object n R c v = Ok c' \<longrightarrow>
                 fits c' v \<longrightarrow> (\<exists>j. dump_json_object c' = Ok j \<and> py_eq j v)"
    using Suc.IH by blast
  show ?case
  proof (cases w)
    case (UnsupportedSchemaWidget b)
    with Suc.prems(2) have "w' = UnsupportedSchemaWidget b" by (simp add: load_unsupported)
    with Suc.prems(3) show ?thesis by simp
  next
    case (JSONObjectWidget b ps)
    with Suc.prems show ?thesis using round_trip_object [OF ih] by blast
  next
    case (JSONEnumWidget b es i)
    with Suc.prems show ?thesis using round_trip_leaf(5) by blast
  next
    case (JSONStringWidget b le)
    with Suc.prems show ?thesis using round_trip_leaf(1) by blast
  next
    case (JSONIntegerWidget b sb)
    with Suc.prems show ?thesis using round_trip_leaf(2) by blast
  next
    case (JSONNumberWidget b sb)
    with Suc.prems show ?thesis using round_trip_leaf(3) by blast
  next
    case (JSONBooleanWidget b c)
    with Suc.prems show ?thesis using round_trip_leaf(4) by blast
  next
    case (JSONArrayWidget b its ad cs)
    with Suc.prems show ?thesis using round_trip_array [OF ih] by blast
  qed
qed

text \<open>
  Claim C1, as the code has it. For a tree that the factory has built (and loaded any
  number of times), a load of \<open>v\<close> that completes and leaves a tree that \<open>v\<close> fits is
  followed by a dump equal to \<open>v\<close> in the sense of Python's \<^verbatim>\<open>==\<close>: objects and arrays
  of strings, integers, numbers, booleans and enumerations, an enumeration by the equality
  of its entry. The condition \<open>fits\<close> is what the claim lacks: the dump of an object has
  every declared property and the dump of an array every child, a null element is not
  loaded into a new child, and the Qt controls cut a string at \<open>maxLength\<close>, force a
  number into their range and round it to two decimals.
\<close>

theorem load_then_dump_round_trip:
  assumes "u_create_widget k R name schema ctx parent = Ok w0"
    and "load_all m R w0 vs = Ok w"
    and "load_json_object n R w v = Ok w'"
    and "fits w' v"
  shows "\<exists>j. dump_json_object w' = Ok j \<and> py_eq j v"
proof -
  have "all_nodes node_ok parent w"
    using created_ok [OF assms(1)] assms(2) by (rule load_all_ok)
  then show ?thesis using assms(3,4) by (rule round_trip)
qed

theorem load_then_dump_round_trip_witness:
  "\<exists>j. dump_json_object (ex_person_with ''Ada'' ''Lady'') = Ok j \<and>
        py_eq j (JObj [(''nick'', JStr ''Lady''), (''name'', JStr ''Ada'')])"
proof -
  have c: "u_create_widget (Suc (Suc (Suc 0))) no_refs ''person'' (JObj ex_person_schema) () None
             = Ok ex_person"
    using ex_person_created by (simp add: create_widget_def)
  have a: "load_all (Suc (Suc 0)) no_refs ex_person [JObj [(''name'', JStr ''Bob'')]]
             = Ok (ex_person_with ''Bob'' [])"
    by (simp add: eval_defs ex_person_def ex_person_with_def)
  have l: "load_json_object (Suc (Suc 0)) no_refs (ex_person_with ''Bob'' [])
             (JObj [(''nick'', JStr ''Lady''), (''name'', JStr ''Ada'')])
           = Ok (ex_person_with ''Ada'' ''Lady'')"
    by (simp add: eval_defs ex_person_with_def)
  have f: "fits (ex_person_with ''Ada'' ''Lady'')
             (JObj [(''nick'', JStr ''Lady''), (''name'', JStr ''Ada'')])"
    by (auto simp: ex_person_with_def)
  from load_then_dump_round_trip [OF c a l f] show ?thesis .
qed

text \<open>
  The claim as the specification states it fails on the object of two strings: the load of
  \<^verbatim>\<open>{"name": "Ada"}\<close> completes, and the dump that follows has the key \<^verbatim>\<open>nick\<close> as well.
\<close>

theorem partial_object_does_not_round_trip:
  "create_widget (Suc (Suc (Suc 0))) no_refs ''person'' (JObj ex_person_schema) () = Ok ex_person
   \<and> load_json_object (Suc (Suc 0)) no_refs ex_person (JObj [(''name'', JStr ''Ada'')])
       = Ok (ex_person_with ''Ada'' [])
   \<and> dump_json_object (ex_person_with ''Ada'' [])
       = Ok (JObj [(''name'', JStr ''Ada''), (''nick'', JStr [])])
   \<and> \<not> py_eq (JObj [(''name'', JStr ''Ada''), (''nick'', JStr [])]) (JObj [(''name'', JStr ''Ada'')])"
  by (simp add: eval_defs ex_person_schema_def ex_person_def ex_person_with_def)

subsection \<open>The default of a schema\<close>

lemma construct_base:
  assumes "construct_or_unsupported mk cls name schema ctx parent = Ok w"
  shows "widget_base w = JSONBaseWidget_init name schema ctx parent"
proof -
  from construct_or_unsupported_Ok [OF assms]
  consider (u) "w = UnsupportedSchemaWidget (JSONBaseWidget_init name schema ctx parent)"
    | (k) "construct mk cls name schema ctx parent = Ok w"
    by blast
  then show ?thesis
  proof cases
    case u
    then show ?thesis by simp
  next
    case k
    show ?thesis
    proof (cases cls)
      case UnsupportedClass
      with k show ?thesis by (auto simp: construct_def UnsupportedSchemaWidget_init_def)
    next
      case ObjectClass
      with k show ?thesis
        by (auto simp: construct_def JSONObjectWidget_init_def Let_def bind_eq_Ok
            split: option.splits json.splits)
    next
      case EnumClass
      with k show ?thesis
        by (auto simp: construct_def JSONEnumWidget_init_def JSONPrimitiveBaseWidget_init_def
            split: option.splits json.splits)
    next
      case StringClass
      with k show ?thesis
        by (auto simp: construct_def JSONStringWidget_init_def JSONPrimitiveBaseWidget_init_def
            Let_def bind_eq_Ok split: if_splits)
    next
      case IntegerClass
      with k show ?thesis
        by (auto simp: construct_def JSONIntegerWidget_init_def JSONPrimitiveBaseWidget_init_def
            bind_eq_Ok)
    next
      case NumberClass
      with k show ?thesis
        by (auto simp: construct_def JSONNumberWidget_init_def JSONPrimitiveBaseWidget_init_def
            bind_eq_Ok)
    next
      case BooleanClass
      with k show ?thesis
        by (auto simp: construct_def JSONBooleanWidget_init_def JSONPrimitiveBaseWidget_init_def)
    next
      case ArrayClass
      with k show ?thesis
        by (auto simp: construct_def JSONArrayWidget_init_def Let_def split: option.splits)
    qed
  qed
qed

text \<open>
  Claim C6, as the code has it. When the (dereferenced) schema has a \<^verbatim>\<open>default\<close>, the
  outcome of the factory is the outcome of the constructed widget's own
  \<^verbatim>\<open>load_json_object\<close> on the default: the loaded widget, or what that load raises. The
  dump of the loaded widget equals the default (Python's \<^verbatim>\<open>==\<close>) when the default fits
  the tree.
\<close>

theorem initialise_loads_default:
  assumes i: "(case map_of d ''id'' of None \<Rightarrow> Ok ctx | Some i \<Rightarrow> follow_uri R ctx i) = Ok ctx'"
    and f: "follow_refs n R ctx' (JObj d) = Ok schema"
    and dflt: "map_of schema ''default'' = Some dflt"
    and s: "select_widget_class schema = Ok widget_class"
    and co: "construct_or_unsupported (u_create_widget n R) widget_class name schema ctx' parent
               = Ok widget"
  shows "u_create_widget (Suc n) R name (JObj d) ctx parent = load_json_object n R widget dflt
       \<and> (load_json_object n R widget dflt = Ok w \<longrightarrow> fits w dflt \<longrightarrow>
            (\<exists>j. dump_json_object w = Ok j \<and> py_eq j dflt))"
proof
  have "base_schema (widget_base widget) = schema"
    using construct_base [OF co] by (simp add: JSONBaseWidget_init_def)
  with dflt have ini: "initialise (load_json_object n R) widget = load_json_object n R widget dflt"
    by (simp add: initialise_def)
  show "u_create_widget (Suc n) R name (JObj d) ctx parent = load_json_object n R widget dflt"
    by (simp only: u_create_widget.simps(2) [of n R name "JObj d" ctx parent]
        i f s co ini bind.simps json.case)
  have mk: "\<forall>k v c p w. u_create_widget n R k v c p = Ok w \<longrightarrow> all_nodes node_ok p w"
    by (intro allI impI) (rule created_ok)
  have ok: "all_nodes node_ok parent widget"
    by (rule construct_inv [OF mk co])
  show "load_json_object n R widget dflt = Ok w \<longrightarrow> fits w dflt \<longrightarrow>
            (\<exists>j. dump_json_object w = Ok j \<and> py_eq j dflt)"
    using round_trip [OF ok] by blast
qed

lemma ex_greeting_created:
  "u_create_widget (Suc (Suc 0)) no_refs ''greeting'' (JObj ex_greeting_schema) () None
     = Ok (ex_greeting ''hi'')"
  by (simp add: eval_defs ex_greeting_schema_def ex_greeting_def)

theorem initialise_loads_default_witness:
  "u_create_widget (Suc (Suc 0)) no_refs ''greeting'' (JObj ex_greeting_schema) () None
     = load_json_object (Suc 0) no_refs (ex_greeting []) (JStr ''hi'')
   \<and> load_json_object (Suc 0) no_refs (ex_greeting []) (JStr ''hi'') = Ok (ex_greeting ''hi'')
   \<and> (\<exists>j. dump_json_object (ex_greeting ''hi'') = Ok j \<and> py_eq j (JStr ''hi''))"
proof -
  have i: "(case map_of ex_greeting_schema ''id'' of None \<Rightarrow> Ok ()
            | Some i \<Rightarrow> follow_uri no_refs () i) = Ok ()"
    by (simp add: ex_greeting_schema_def)
  have f: "follow_refs (Suc 0) no_refs () (JObj ex_greeting_schema) = Ok ex_greeting_schema"
    by (simp add: ex_greeting_schema_def)
  have d: "map_of ex_greeting_schema ''default'' = Some (JStr ''hi'')"
    by (simp add: ex_greeting_schema_def)
  have s: "select_widget_class ex_greeting_schema = Ok StringClass"
    by (simp add: select_widget_class_def schema_type_to_widget_class_def ex_greeting_schema_def)
  have co: "construct_or_unsupported (u_create_widget (Suc 0) no_refs) StringClass ''greeting''
              ex_greeting_schema () None = Ok (ex_greeting [])"
    by (simp add: construct_or_unsupported_def construct_def JSONStringWidget_init_def
        JSONPrimitiveBaseWidget_init_def dict_get_def QLineEdit_def ex_greeting_schema_def
        ex_greeting_def)
  have l: "load_json_object (Suc 0) no_refs (ex_greeting []) (JStr ''hi'') = Ok (ex_greeting ''hi'')"
    by (simp add: load_json_object.simps qt_str_def setText_def le_truncate_def ex_greeting_def)
  have t: "fits (ex_greeting ''hi'') (JStr ''hi'')"
    by (simp add: ex_greeting_def)
  from initialise_loads_default [OF i f d s co, of "ex_greeting ''hi''"] l t
  show ?thesis by simp
qed

text \<open>
  The claim as the specification states it (the initial dump equals the default) fails on
  the object of two strings with the default \<^verbatim>\<open>{"name": "Ada"}\<close>: the initial dump has the
  key \<^verbatim>\<open>nick\<close> as well.
\<close>

theorem default_does_not_become_dump:
  "create_widget (Suc (Suc (Suc 0))) no_refs ''person'' (JObj ex_preset_schema) () = Ok ex_preset
   \<and> map_of ex_preset_schema ''default'' = Some (JObj [(''name'', JStr ''Ada'')])
   \<and> dump_json_object ex_preset = Ok (JObj [(''name'', JStr ''Ada''), (''nick'', JStr [])])
   \<and> \<not> py_eq (JObj [(''name'', JStr ''Ada''), (''nick'', JStr [])]) (JObj [(''name'', JStr ''Ada'')])"
  by (simp add: eval_defs ex_preset_schema_def ex_person_schema_def ex_preset_def)

end
